theory Spec2Isabelle
  imports Complex_Main
begin

section \<open>The box-constrained QP solver of crocoddyl (core/solvers/box-qp.hxx)\<close>

text \<open>
  The solver minimises \<open>0.5 x\<^sup>T H x + q\<^sup>T x\<close> subject to \<open>lb \<le> x \<le> ub\<close> by a
  projected Newton method. This theory embeds \<open>BoxQP::BoxQP\<close> and \<open>BoxQP::solve\<close>.

  The code is embedded twice. The first embedding, in this section, computes with exact
  reals; the structure of \<open>solve\<close> (what is computed from what, in which order, and
  what is returned or thrown) is stated on it. The second one, in the section on
  floating-point values below, computes with the values of a \<open>double\<close>, NaN and
  infinities included, and leaves the rounding open; the properties that depend on NaN or
  on rounding are stated on it.

  Conventions of the first embedding:
  \<^item> a \<open>double\<close> is a \<open>real\<close>: arithmetic is exact, there is no rounding, no NaN and no
    infinity;
  \<^item> an \<open>Eigen::VectorXd\<close> is a list of reals, \<open>v(i)\<close> is \<open>v ! i\<close>, \<open>v.size()\<close> is
    \<open>length v\<close>; an \<open>Eigen::MatrixXd\<close> is a record of its two dimensions and its
    coefficient function;
  \<^item> a data member \<open>name_\<close> of the class is the record field \<open>name_m\<close> (an identifier
    cannot end with an underscore here);
  \<^item> the class declaration (box-qp.hpp) is not among the sources: the members and their
    types are taken from their use in the constructor and in \<open>solve\<close>;
  \<^item> \<open>throw_pretty\<close> is an exception value; \<open>solve\<close> returns the exception or the
    solution together with the solver object as the call leaves it;
  \<^item> \<open>Eigen::LLT\<close> belongs to the linear-algebra library, not to this repository: the
    factorisation is a parameter \<open>L\<close> of the model, giving the outcome of \<open>compute\<close>
    and the result of \<open>solveInPlace\<close>.
\<close>

subsection \<open>Vectors and matrices\<close>

type_synonym vec = "real list"

record mat =
  rows :: nat
  cols :: nat
  coeff :: "nat \<Rightarrow> nat \<Rightarrow> real"

definition empty_mat :: mat where
  "empty_mat = \<lparr>rows = 0, cols = 0, coeff = (\<lambda>i j. 0)\<rparr>"

definition mat_of_rows :: "nat \<Rightarrow> nat \<Rightarrow> real list list \<Rightarrow> mat" where
  "mat_of_rows r c xss = \<lparr>rows = r, cols = c, coeff = (\<lambda>i j. xss ! i ! j)\<rparr>"

definition dot :: "vec \<Rightarrow> vec \<Rightarrow> real" where
  "dot u v = sum_list (map (\<lambda>i. u ! i * v ! i) [0..<length u])"

definition mat_vec :: "mat \<Rightarrow> vec \<Rightarrow> vec" where
  "mat_vec A v = map (\<lambda>i. sum_list (map (\<lambda>j. coeff A i j * v ! j) [0..<cols A])) [0..<rows A]"

definition vadd :: "vec \<Rightarrow> vec \<Rightarrow> vec" where
  "vadd u v = map (\<lambda>i. u ! i + v ! i) [0..<length u]"

definition vsub :: "vec \<Rightarrow> vec \<Rightarrow> vec" where
  "vsub u v = map (\<lambda>i. u ! i - v ! i) [0..<length u]"

definition vneg :: "vec \<Rightarrow> vec" where
  "vneg u = map uminus u"

definition unit_vec :: "nat \<Rightarrow> nat \<Rightarrow> vec" where
  "unit_vec n j = map (\<lambda>i. if i = j then 1 else 0) [0..<n]"

text \<open>\<open>v.lpNorm<Eigen::Infinity>()\<close>: the largest absolute value, 0 for the empty vector.\<close>

definition linf_norm :: "vec \<Rightarrow> real" where
  "linf_norm v = foldr (\<lambda>a m. max \<bar>a\<bar> m) v 0"

subsection \<open>The Cholesky factorisation of the library\<close>

text \<open>
  \<open>llt_info L A\<close> says that \<open>Eigen::LLT::compute(A)\<close> ends with \<open>info() == Eigen::Success\<close>;
  \<open>llt_solve L A b\<close> is what \<open>solveInPlace\<close> leaves in \<open>b\<close> for the factorisation of \<open>A\<close>.
\<close>

record llt =
  llt_info :: "mat \<Rightarrow> bool"
  llt_solve :: "mat \<Rightarrow> vec \<Rightarrow> vec"

text \<open>
  \<open>Hff_inv_.setIdentity(nf_, nf_); Hff_inv_llt_.solveInPlace(Hff_inv_)\<close>: column \<open>j\<close> of
  the result is the solution for the \<open>j\<close>-th unit vector.
\<close>

definition llt_inverse :: "llt \<Rightarrow> nat \<Rightarrow> mat \<Rightarrow> mat" where
  "llt_inverse L n A = \<lparr>rows = n, cols = n, coeff = (\<lambda>i j. llt_solve L A (unit_vec n j) ! i)\<rparr>"

text \<open>
  Modelled from the spec: the dense Cholesky primitive "with positive-definiteness
  detection" of the linear-algebra library, which is not part of this repository, in exact
  arithmetic. The factorisation of a symmetric matrix succeeds iff every pivot of the
  elimination is positive, and solving with the factors gives the solution of the linear
  system; both are computed here by elimination on the Schur complement, reading the lower
  triangle only. It instantiates the parameter \<open>L\<close> on concrete inputs.
\<close>

definition schur :: "(nat \<Rightarrow> nat \<Rightarrow> real) \<Rightarrow> nat \<Rightarrow> nat \<Rightarrow> real" where
  "schur A i j = A (Suc i) (Suc j) - A (Suc i) 0 * A (Suc j) 0 / A 0 0"

fun chol_ok :: "nat \<Rightarrow> (nat \<Rightarrow> nat \<Rightarrow> real) \<Rightarrow> bool" where
  "chol_ok 0 A = True"
| "chol_ok (Suc n) A = (0 < A 0 0 \<and> chol_ok n (schur A))"

fun chol_solve :: "nat \<Rightarrow> (nat \<Rightarrow> nat \<Rightarrow> real) \<Rightarrow> vec \<Rightarrow> vec" where
  "chol_solve 0 A b = []"
| "chol_solve (Suc n) A b =
     (let z = chol_solve n (schur A) (map (\<lambda>i. b ! Suc i - A (Suc i) 0 * b ! 0 / A 0 0) [0..<n])
      in (b ! 0 - sum_list (map (\<lambda>j. A (Suc j) 0 * z ! j) [0..<n])) / A 0 0 # z)"

definition exact_llt :: llt where
  "exact_llt = \<lparr>llt_info = (\<lambda>A. chol_ok (rows A) (coeff A)),
                llt_solve = (\<lambda>A b. chol_solve (rows A) (coeff A) b)\<rparr>"

subsection \<open>The solver object\<close>

record BoxQPSolution =
  sol_Hff_inv :: mat
  sol_x :: vec
  sol_free_idx :: "nat list"
  sol_clamped_idx :: "nat list"

text \<open>
  \<open>Hff_inv_llt_m\<close> holds the matrix that the factorisation object \<open>Hff_inv_llt_\<close> was last
  computed from.
\<close>

record BoxQP =
  nx_m :: nat
  maxiter_m :: nat
  th_acceptstep_m :: real
  th_grad_m :: real
  reg_m :: real
  x_m :: vec
  xnew_m :: vec
  g_m :: vec
  dx_m :: vec
  clamped_idx_m :: "nat list"
  free_idx_m :: "nat list"
  alphas_m :: "real list"
  nf_m :: nat
  nc_m :: nat
  qf_m :: vec
  xf_m :: vec
  xc_m :: vec
  dxf_m :: vec
  Hff_m :: mat
  Hfc_m :: mat
  Hff_inv_m :: mat
  Hff_inv_llt_m :: mat
  solution_m :: BoxQPSolution

datatype arg = ArgH | Argq | Arglb | Argub | Argxinit

text \<open>
  \<open>Invalid_argument a\<close> is \<open>throw_pretty("Invalid argument: a has wrong dimension ...")\<close>,
  \<open>Backward_error\<close> is \<open>throw_pretty("backward_error")\<close>.
\<close>

datatype exn = Invalid_argument arg | Backward_error

text \<open>
  The constructor. The vectors \<open>x_\<close>, \<open>xnew_\<close>, \<open>g_\<close>, \<open>dx_\<close> get size \<open>nx\<close> (their
  coefficients are not initialised in C++, nor are \<open>nf_\<close> and \<open>nc_\<close>; they are 0 here and
  \<open>solve\<close> writes each of them before it reads it); the other Eigen members and the
  solution are default constructed, that is, empty. No member changes its size later,
  except by the assignments and the resizings written out below.
\<close>

definition BoxQP_ctor :: "nat \<Rightarrow> nat \<Rightarrow> real \<Rightarrow> real \<Rightarrow> real \<Rightarrow> BoxQP" where
  "BoxQP_ctor nx maxiter th_acceptstep th_grad reg =
     \<lparr>nx_m = nx, maxiter_m = maxiter, th_acceptstep_m = th_acceptstep, th_grad_m = th_grad,
      reg_m = reg,
      x_m = replicate nx 0, xnew_m = replicate nx 0, g_m = replicate nx 0,
      dx_m = replicate nx 0,
      clamped_idx_m = [], free_idx_m = [],
      alphas_m = map (\<lambda>n. 1 / 2 ^ n) [0..<10],
      nf_m = 0, nc_m = 0,
      qf_m = [], xf_m = [], xc_m = [], dxf_m = [],
      Hff_m = empty_mat, Hfc_m = empty_mat, Hff_inv_m = empty_mat, Hff_inv_llt_m = empty_mat,
      solution_m = \<lparr>sol_Hff_inv = empty_mat, sol_x = [], sol_free_idx = [],
                     sol_clamped_idx = []\<rparr>\<rparr>"

subsection \<open>The pieces of one iteration of solve\<close>

text \<open>
  Lines 60--62 and 169--171: \<open>std::max(std::min(v(i), ub(i)), lb(i))\<close> for \<open>i < nx_\<close>.
  What this gives on NaN is in \<open>project_fp\<close> below; feasibility is stated there.
\<close>

definition project :: "nat \<Rightarrow> vec \<Rightarrow> vec \<Rightarrow> vec \<Rightarrow> vec" where
  "project n lb ub v = map (\<lambda>i. max (min (v ! i) (ub ! i)) (lb ! i)) [0..<n]"

text \<open>
  Lines 166 and 172: \<open>0.5 * x.dot(H * x) + q.dot(x)\<close>, without rounding here; the value
  that the code computes is \<open>objective_fp\<close> below, and monotonicity is stated there.
\<close>

definition objective :: "mat \<Rightarrow> vec \<Rightarrow> vec \<Rightarrow> real" where
  "objective H q x = 0.5 * dot x (mat_vec H x) + dot q x"

text \<open>Lines 72--80: the body of the loop that classifies coordinate \<open>j\<close>.\<close>

definition classify :: "vec \<Rightarrow> vec \<Rightarrow> nat \<Rightarrow> BoxQP \<Rightarrow> BoxQP" where
  "classify lb ub j s =
     (let gj = g_m s ! j; xj = x_m s ! j; lbj = lb ! j; ubj = ub ! j
      in if (xj = lbj \<and> gj > 0) \<or> (xj = ubj \<and> gj < 0)
         then s\<lparr>clamped_idx_m := clamped_idx_m s @ [j]\<rparr>
         else s\<lparr>free_idx_m := free_idx_m s @ [j]\<rparr>)"

text \<open>Lines 66--85: gradient, partition and the two cardinalities.\<close>

definition partition_step :: "mat \<Rightarrow> vec \<Rightarrow> vec \<Rightarrow> vec \<Rightarrow> BoxQP \<Rightarrow> BoxQP" where
  "partition_step H q lb ub s =
     (let s1 = s\<lparr>clamped_idx_m := [], free_idx_m := []\<rparr>;
          s2 = s1\<lparr>g_m := q\<rparr>;
          s3 = s2\<lparr>g_m := vadd (g_m s2) (mat_vec H (x_m s2))\<rparr>;
          s4 = fold (classify lb ub) [0..<nx_m s3] s3
      in s4\<lparr>nf_m := length (free_idx_m s4), nc_m := length (clamped_idx_m s4)\<rparr>)"

text \<open>Lines 95--97 and 134--136: \<open>if (reg_ != 0.) Hff_.diagonal().array() += reg_\<close>.\<close>

definition add_reg :: "real \<Rightarrow> mat \<Rightarrow> mat" where
  "add_reg r A =
     (if r \<noteq> 0 then A\<lparr>coeff := (\<lambda>i j. if i = j then coeff A i j + r else coeff A i j)\<rparr>
      else A)"

text \<open>Lines 88--94 and 119, 125--127: the free-free block of \<open>H\<close>.\<close>

definition free_block :: "mat \<Rightarrow> nat list \<Rightarrow> mat" where
  "free_block H fr =
     \<lparr>rows = length fr, cols = length fr, coeff = (\<lambda>i j. coeff H (fr ! i) (fr ! j))\<rparr>"

text \<open>Lines 120, 128--132: the free-clamped block of \<open>H\<close>.\<close>

definition free_clamped_block :: "mat \<Rightarrow> nat list \<Rightarrow> nat list \<Rightarrow> mat" where
  "free_clamped_block H fr cl =
     \<lparr>rows = length fr, cols = length cl, coeff = (\<lambda>i j. coeff H (fr ! i) (cl ! j))\<rparr>"

text \<open>
  \<open>v.resize(n)\<close> keeps a vector that has size \<open>n\<close> already; otherwise the new
  coefficients are not initialised in C++ (they are 0 here).
\<close>

definition resize :: "nat \<Rightarrow> vec \<Rightarrow> vec" where
  "resize n v = (if length v = n then v else replicate n 0)"

text \<open>
  Lines 115--138: the reduced quantities and the factorisation. Every coefficient of
  \<open>qf_\<close>, \<open>xf_\<close>, \<open>Hff_\<close> and \<open>Hfc_\<close> is written after the resizing; so is \<open>xc_\<close>, inside the
  loop over the free indices, since this code runs only when \<open>nf_\<close> is not 0; \<open>dxf_\<close> is only
  resized here.
\<close>

definition assemble :: "mat \<Rightarrow> vec \<Rightarrow> BoxQP \<Rightarrow> BoxQP" where
  "assemble H q s =
     (let fr = free_idx_m s; cl = clamped_idx_m s;
          s1 = s\<lparr>qf_m := map (\<lambda>i. q ! (fr ! i)) [0..<nf_m s],
                 xf_m := map (\<lambda>i. x_m s ! (fr ! i)) [0..<nf_m s],
                 xc_m := map (\<lambda>j. x_m s ! (cl ! j)) [0..<nc_m s],
                 dxf_m := resize (nf_m s) (dxf_m s),
                 Hff_m := free_block H fr,
                 Hfc_m := free_clamped_block H fr cl\<rparr>;
          s2 = s1\<lparr>Hff_m := add_reg (reg_m s1) (Hff_m s1)\<rparr>
      in s2\<lparr>Hff_inv_llt_m := Hff_m s2\<rparr>)"

text \<open>
  Lines 88--99: the regularised free-free block and its factorisation, in the branch of
  the convergence check.
\<close>

definition reduced_hessian :: "mat \<Rightarrow> BoxQP \<Rightarrow> BoxQP" where
  "reduced_hessian H s =
     (let s1 = s\<lparr>Hff_m := free_block H (free_idx_m s)\<rparr>;
          s2 = s1\<lparr>Hff_m := add_reg (reg_m s1) (Hff_m s1)\<rparr>
      in s2\<lparr>Hff_inv_llt_m := Hff_m s2\<rparr>)"

text \<open>Lines 104--105 and 143--144: the inverse from the factorisation.\<close>

definition store_inverse :: "llt \<Rightarrow> BoxQP \<Rightarrow> BoxQP" where
  "store_inverse L s = s\<lparr>Hff_inv_m := llt_inverse L (nf_m s) (Hff_inv_llt_m s)\<rparr>"

text \<open>Lines 143--154: the inverse, the Newton direction on the free set, its scattering.\<close>

definition newton :: "llt \<Rightarrow> BoxQP \<Rightarrow> BoxQP" where
  "newton L s =
     (let s1 = store_inverse L s;
          s2 = s1\<lparr>dxf_m := vneg (qf_m s1)\<rparr>;
          s3 = (if nc_m s2 \<noteq> 0
                then s2\<lparr>dxf_m := vsub (dxf_m s2) (mat_vec (Hfc_m s2) (xc_m s2))\<rparr> else s2);
          s4 = s3\<lparr>dxf_m := llt_solve L (Hff_inv_llt_m s3) (dxf_m s3)\<rparr>;
          s5 = s4\<lparr>dxf_m := vsub (dxf_m s4) (xf_m s4)\<rparr>;
          s6 = s5\<lparr>dx_m := replicate (nx_m s5) 0\<rparr>
      in s6\<lparr>dx_m := fold (\<lambda>i d. d[free_idx_m s6 ! i := dxf_m s6 ! i]) [0..<nf_m s6] (dx_m s6)\<rparr>)"

text \<open>
  Lines 167--177: the loop over the step lengths, with \<open>fold\<close> the objective at \<open>x_\<close>
  (the parameter \<open>fold0\<close>).
\<close>

fun line_search :: "mat \<Rightarrow> vec \<Rightarrow> vec \<Rightarrow> vec \<Rightarrow> real \<Rightarrow> real list \<Rightarrow> BoxQP \<Rightarrow> BoxQP" where
  "line_search H q lb ub fold0 [] s = s"
| "line_search H q lb ub fold0 (steplength # rest) s =
     (let s1 = s\<lparr>xnew_m := project (nx_m s) lb ub
                               (map (\<lambda>i. x_m s ! i + steplength * dx_m s ! i) [0..<nx_m s])\<rparr>;
          fnew = objective H q (xnew_m s1)
      in if fold0 - fnew > th_acceptstep_m s1 * dot (g_m s1) (vsub (x_m s1) (xnew_m s1))
         then s1\<lparr>x_m := xnew_m s1\<rparr>
         else line_search H q lb ub fold0 rest s1)"

text \<open>Lines 107--110, 158--161, 179--182: the four assignments to \<open>solution_\<close>.\<close>

definition store_solution :: "BoxQP \<Rightarrow> BoxQP" where
  "store_solution s =
     s\<lparr>solution_m := (solution_m s)\<lparr>sol_Hff_inv := Hff_inv_m s, sol_x := x_m s,
                                      sol_free_idx := free_idx_m s,
                                      sol_clamped_idx := clamped_idx_m s\<rparr>\<rparr>"

subsection \<open>The iteration and solve\<close>

text \<open>
  One pass through the body of the loop on \<open>k\<close> (lines 66--177) ends with a \<open>return\<close>,
  with a \<open>throw\<close>, or at the end of the body.
\<close>

datatype step = Return BoxQP | Throw exn BoxQP | Continue BoxQP

definition converged :: "BoxQP \<Rightarrow> bool" where
  "converged s = (linf_norm (g_m s) \<le> th_grad_m s \<or> nf_m s = 0)"

definition iteration :: "llt \<Rightarrow> mat \<Rightarrow> vec \<Rightarrow> vec \<Rightarrow> vec \<Rightarrow> nat \<Rightarrow> BoxQP \<Rightarrow> step" where
  "iteration L H q lb ub k s0 =
     (let s = partition_step H q lb ub s0 in
      if converged s then
        (if k = 0 then
           (let s1 = reduced_hessian H s in
            if \<not> llt_info L (Hff_inv_llt_m s1) then Throw Backward_error s1
            else Return (store_solution (store_inverse L s1)))
         else Return (store_solution s))
      else
        (let s1 = assemble H q s in
         if \<not> llt_info L (Hff_inv_llt_m s1) then Throw Backward_error s1
         else
           (let s2 = newton L s1 in
            if linf_norm (dx_m s2) < th_grad_m s2 then Return (store_solution s2)
            else Continue (line_search H q lb ub (objective H q (x_m s2)) (alphas_m s2) s2))))"

text \<open>
  The loop \<open>for (k = 0; k < maxiter_; ++k)\<close> and the code after it (lines 179--183):
  \<open>k\<close> is the loop counter and \<open>m = maxiter_ - k\<close> the number of iterations left.
\<close>

fun loop :: "llt \<Rightarrow> mat \<Rightarrow> vec \<Rightarrow> vec \<Rightarrow> vec \<Rightarrow> nat \<Rightarrow> nat \<Rightarrow> BoxQP
    \<Rightarrow> (exn + BoxQPSolution) \<times> BoxQP" where
  "loop L H q lb ub k 0 s = (let s' = store_solution s in (Inr (solution_m s'), s'))"
| "loop L H q lb ub k (Suc m) s =
     (case iteration L H q lb ub k s of
        Return s' \<Rightarrow> (Inr (solution_m s'), s')
      | Throw e s' \<Rightarrow> (Inl e, s')
      | Continue s' \<Rightarrow> loop L H q lb ub (Suc k) m s')"

text \<open>\<open>BoxQP::solve\<close> on the solver object \<open>s\<close>.\<close>

definition solve :: "llt \<Rightarrow> BoxQP \<Rightarrow> mat \<Rightarrow> vec \<Rightarrow> vec \<Rightarrow> vec \<Rightarrow> vec
    \<Rightarrow> (exn + BoxQPSolution) \<times> BoxQP" where
  "solve L s H q lb ub xinit =
     (if rows H \<noteq> nx_m s \<or> cols H \<noteq> nx_m s then (Inl (Invalid_argument ArgH), s)
      else if length q \<noteq> nx_m s then (Inl (Invalid_argument Argq), s)
      else if length lb \<noteq> nx_m s then (Inl (Invalid_argument Arglb), s)
      else if length ub \<noteq> nx_m s then (Inl (Invalid_argument Argub), s)
      else if length xinit \<noteq> nx_m s then (Inl (Invalid_argument Argxinit), s)
      else loop L H q lb ub 0 (maxiter_m s) (s\<lparr>x_m := project (nx_m s) lb ub xinit\<rparr>))"

section \<open>The solver over floating-point values\<close>

text \<open>
  The embedding above computes with exact reals. Two properties of the solver depend on
  what a \<open>double\<close> is beyond that: a \<open>double\<close> can be NaN, every comparison with NaN is
  false, and the results of \<open>+\<close>, \<open>-\<close> and \<open>*\<close> are rounded. This section embeds the same
  code once more, line by line, over the values of a \<open>double\<close>, with the arithmetic left
  open:
  \<^item> the value of a \<open>double\<close> is NaN, an infinity or a real number (\<open>-0\<close> and \<open>+0\<close> are
    one value: they compare equal, and the code never divides);
  \<^item> the comparisons \<open><\<close>, \<open><=\<close>, \<open>==\<close>, \<open>!=\<close>, \<open>std::min\<close>, \<open>std::max\<close> and the unary
    minus are exact and are defined below;
  \<^item> the operations that round, namely \<open>+\<close>, \<open>-\<close>, \<open>*\<close> on \<open>double\<close> and the kernels of the
    linear-algebra library (\<open>a.dot(b)\<close>, the product \<open>H * x\<close>,
    \<open>lpNorm<Eigen::Infinity>\<close>, \<open>Eigen::LLT\<close>), are the fields of a parameter \<open>F\<close>; the
    properties below say what they assume about \<open>F\<close>.
\<close>

subsection \<open>Values and comparisons\<close>

datatype dbl = NaN | MInf | Fin real | PInf

type_synonym dvec = "dbl list"

record dmat =
  drows :: nat
  dcols :: nat
  dcoeff :: "nat \<Rightarrow> nat \<Rightarrow> dbl"

definition empty_dmat :: dmat where
  "empty_dmat = \<lparr>drows = 0, dcols = 0, dcoeff = (\<lambda>i j. Fin 0)\<rparr>"

definition dmat_of_rows :: "nat \<Rightarrow> nat \<Rightarrow> dbl list list \<Rightarrow> dmat" where
  "dmat_of_rows r c xss = \<lparr>drows = r, dcols = c, dcoeff = (\<lambda>i j. xss ! i ! j)\<rparr>"

text \<open>\<open>a < b\<close>, \<open>a == b\<close> and \<open>a <= b\<close> on \<open>double\<close>: false whenever an operand is NaN.\<close>

fun dless :: "dbl \<Rightarrow> dbl \<Rightarrow> bool" where
  "dless NaN b = False"
| "dless a NaN = False"
| "dless MInf MInf = False"
| "dless MInf b = True"
| "dless (Fin x) (Fin y) = (x < y)"
| "dless (Fin x) PInf = True"
| "dless (Fin x) MInf = False"
| "dless PInf b = False"

definition deq :: "dbl \<Rightarrow> dbl \<Rightarrow> bool" where
  "deq a b = (a \<noteq> NaN \<and> a = b)"

definition dle :: "dbl \<Rightarrow> dbl \<Rightarrow> bool" where
  "dle a b = (dless a b \<or> deq a b)"

text \<open>
  \<open>std::min(a, b)\<close> is \<open>(b < a) ? b : a\<close> and \<open>std::max(a, b)\<close> is \<open>(a < b) ? b : a\<close>.
\<close>

definition dmin :: "dbl \<Rightarrow> dbl \<Rightarrow> dbl" where
  "dmin a b = (if dless b a then b else a)"

definition dmax :: "dbl \<Rightarrow> dbl \<Rightarrow> dbl" where
  "dmax a b = (if dless a b then b else a)"

fun dneg :: "dbl \<Rightarrow> dbl" where
  "dneg NaN = NaN"
| "dneg MInf = PInf"
| "dneg (Fin x) = Fin (- x)"
| "dneg PInf = MInf"

subsection \<open>The operations that round\<close>

text \<open>
  \<open>fadd\<close>, \<open>fsub\<close>, \<open>fmul\<close> are \<open>+\<close>, \<open>-\<close>, \<open>*\<close> on \<open>double\<close>; \<open>fdot a b\<close> is \<open>a.dot(b)\<close>,
  \<open>fprod H x\<close> is \<open>H * x\<close>, \<open>fnorm v\<close> is \<open>v.lpNorm<Eigen::Infinity>()\<close>; \<open>fllt_info A\<close> says
  that \<open>Eigen::LLT::compute(A)\<close> ends with \<open>Eigen::Success\<close> and \<open>fllt_solve A b\<close> is what
  \<open>solveInPlace\<close> leaves in \<open>b\<close>.
\<close>

record fplib =
  fadd :: "dbl \<Rightarrow> dbl \<Rightarrow> dbl"
  fsub :: "dbl \<Rightarrow> dbl \<Rightarrow> dbl"
  fmul :: "dbl \<Rightarrow> dbl \<Rightarrow> dbl"
  fdot :: "dvec \<Rightarrow> dvec \<Rightarrow> dbl"
  fprod :: "dmat \<Rightarrow> dvec \<Rightarrow> dvec"
  fnorm :: "dvec \<Rightarrow> dbl"
  fllt_info :: "dmat \<Rightarrow> bool"
  fllt_solve :: "dmat \<Rightarrow> dvec \<Rightarrow> dvec"

text \<open>The coefficient-wise \<open>u + v\<close> and \<open>u - v\<close> of the library, and \<open>-u\<close>.\<close>

definition vadd_fp :: "fplib \<Rightarrow> dvec \<Rightarrow> dvec \<Rightarrow> dvec" where
  "vadd_fp F u v = map (\<lambda>i. fadd F (u ! i) (v ! i)) [0..<length u]"

definition vsub_fp :: "fplib \<Rightarrow> dvec \<Rightarrow> dvec \<Rightarrow> dvec" where
  "vsub_fp F u v = map (\<lambda>i. fsub F (u ! i) (v ! i)) [0..<length u]"

definition vneg_fp :: "dvec \<Rightarrow> dvec" where
  "vneg_fp u = map dneg u"

definition unit_dvec :: "nat \<Rightarrow> nat \<Rightarrow> dvec" where
  "unit_dvec n j = map (\<lambda>i. if i = j then Fin 1 else Fin 0) [0..<n]"

definition llt_inverse_fp :: "fplib \<Rightarrow> nat \<Rightarrow> dmat \<Rightarrow> dmat" where
  "llt_inverse_fp F n A =
     \<lparr>drows = n, dcols = n, dcoeff = (\<lambda>i j. fllt_solve F A (unit_dvec n j) ! i)\<rparr>"

subsection \<open>The solver object\<close>

record BoxQPSolution_fp =
  fsol_Hff_inv :: dmat
  fsol_x :: dvec
  fsol_free_idx :: "nat list"
  fsol_clamped_idx :: "nat list"

text \<open>The members, as in \<open>BoxQP\<close> above, with the suffix \<open>_f\<close>.\<close>

record BoxQP_fp =
  nx_f :: nat
  maxiter_f :: nat
  th_acceptstep_f :: dbl
  th_grad_f :: dbl
  reg_f :: dbl
  x_f :: dvec
  xnew_f :: dvec
  g_f :: dvec
  dx_f :: dvec
  clamped_idx_f :: "nat list"
  free_idx_f :: "nat list"
  alphas_f :: "dbl list"
  nf_f :: nat
  nc_f :: nat
  qf_f :: dvec
  xf_f :: dvec
  xc_f :: dvec
  dxf_f :: dvec
  Hff_f :: dmat
  Hfc_f :: dmat
  Hff_inv_f :: dmat
  Hff_inv_llt_f :: dmat
  solution_f :: BoxQPSolution_fp

text \<open>
  The constructor; \<open>1. / pow(2., n)\<close> is a power of two and is exact for \<open>n < 10\<close>.
\<close>

definition BoxQP_fp_ctor :: "nat \<Rightarrow> nat \<Rightarrow> dbl \<Rightarrow> dbl \<Rightarrow> dbl \<Rightarrow> BoxQP_fp" where
  "BoxQP_fp_ctor nx maxiter th_acceptstep th_grad reg =
     \<lparr>nx_f = nx, maxiter_f = maxiter, th_acceptstep_f = th_acceptstep, th_grad_f = th_grad,
      reg_f = reg,
      x_f = replicate nx (Fin 0), xnew_f = replicate nx (Fin 0), g_f = replicate nx (Fin 0),
      dx_f = replicate nx (Fin 0),
      clamped_idx_f = [], free_idx_f = [],
      alphas_f = map (\<lambda>n. Fin (1 / 2 ^ n)) [0..<10],
      nf_f = 0, nc_f = 0,
      qf_f = [], xf_f = [], xc_f = [], dxf_f = [],
      Hff_f = empty_dmat, Hfc_f = empty_dmat, Hff_inv_f = empty_dmat,
      Hff_inv_llt_f = empty_dmat,
      solution_f = \<lparr>fsol_Hff_inv = empty_dmat, fsol_x = [], fsol_free_idx = [],
                     fsol_clamped_idx = []\<rparr>\<rparr>"

subsection \<open>The pieces of one iteration of solve\<close>

text \<open>Lines 60--62 and 169--171: \<open>std::max(std::min(v(i), ub(i)), lb(i))\<close> for \<open>i < nx_\<close>.\<close>

definition project_fp :: "nat \<Rightarrow> dvec \<Rightarrow> dvec \<Rightarrow> dvec \<Rightarrow> dvec" where
  "project_fp n lb ub v = map (\<lambda>i. dmax (dmin (v ! i) (ub ! i)) (lb ! i)) [0..<n]"

text \<open>Lines 166 and 172: \<open>0.5 * x.dot(H * x) + q.dot(x)\<close>.\<close>

definition objective_fp :: "fplib \<Rightarrow> dmat \<Rightarrow> dvec \<Rightarrow> dvec \<Rightarrow> dbl" where
  "objective_fp F H q x = fadd F (fmul F (Fin (1/2)) (fdot F x (fprod F H x))) (fdot F q x)"

text \<open>
  Lines 72--80: \<open>(xj == lbj && gj > 0.) || (xj == ubj && gj < 0.)\<close> and the two
  \<open>push_back\<close>.
\<close>

definition classify_fp :: "dvec \<Rightarrow> dvec \<Rightarrow> nat \<Rightarrow> BoxQP_fp \<Rightarrow> BoxQP_fp" where
  "classify_fp lb ub j s =
     (let gj = g_f s ! j; xj = x_f s ! j; lbj = lb ! j; ubj = ub ! j
      in if (deq xj lbj \<and> dless (Fin 0) gj) \<or> (deq xj ubj \<and> dless gj (Fin 0))
         then s\<lparr>clamped_idx_f := clamped_idx_f s @ [j]\<rparr>
         else s\<lparr>free_idx_f := free_idx_f s @ [j]\<rparr>)"

text \<open>Lines 66--85.\<close>

definition partition_step_fp :: "fplib \<Rightarrow> dmat \<Rightarrow> dvec \<Rightarrow> dvec \<Rightarrow> dvec \<Rightarrow> BoxQP_fp \<Rightarrow> BoxQP_fp" where
  "partition_step_fp F H q lb ub s =
     (let s1 = s\<lparr>clamped_idx_f := [], free_idx_f := []\<rparr>;
          s2 = s1\<lparr>g_f := q\<rparr>;
          s3 = s2\<lparr>g_f := vadd_fp F (g_f s2) (fprod F H (x_f s2))\<rparr>;
          s4 = fold (classify_fp lb ub) [0..<nx_f s3] s3
      in s4\<lparr>nf_f := length (free_idx_f s4), nc_f := length (clamped_idx_f s4)\<rparr>)"

text \<open>
  Lines 95--97 and 134--136: \<open>if (reg_ != 0.) Hff_.diagonal().array() += reg_\<close>; \<open>!=\<close> is
  the negation of \<open>==\<close>.
\<close>

definition add_reg_fp :: "fplib \<Rightarrow> dbl \<Rightarrow> dmat \<Rightarrow> dmat" where
  "add_reg_fp F r A =
     (if \<not> deq r (Fin 0)
      then A\<lparr>dcoeff := (\<lambda>i j. if i = j then fadd F (dcoeff A i j) r else dcoeff A i j)\<rparr>
      else A)"

definition free_block_fp :: "dmat \<Rightarrow> nat list \<Rightarrow> dmat" where
  "free_block_fp H fr =
     \<lparr>drows = length fr, dcols = length fr, dcoeff = (\<lambda>i j. dcoeff H (fr ! i) (fr ! j))\<rparr>"

definition free_clamped_block_fp :: "dmat \<Rightarrow> nat list \<Rightarrow> nat list \<Rightarrow> dmat" where
  "free_clamped_block_fp H fr cl =
     \<lparr>drows = length fr, dcols = length cl, dcoeff = (\<lambda>i j. dcoeff H (fr ! i) (cl ! j))\<rparr>"

definition resize_fp :: "nat \<Rightarrow> dvec \<Rightarrow> dvec" where
  "resize_fp n v = (if length v = n then v else replicate n (Fin 0))"

text \<open>Lines 115--138.\<close>

definition assemble_fp :: "fplib \<Rightarrow> dmat \<Rightarrow> dvec \<Rightarrow> BoxQP_fp \<Rightarrow> BoxQP_fp" where
  "assemble_fp F H q s =
     (let fr = free_idx_f s; cl = clamped_idx_f s;
          s1 = s\<lparr>qf_f := map (\<lambda>i. q ! (fr ! i)) [0..<nf_f s],
                 xf_f := map (\<lambda>i. x_f s ! (fr ! i)) [0..<nf_f s],
                 xc_f := map (\<lambda>j. x_f s ! (cl ! j)) [0..<nc_f s],
                 dxf_f := resize_fp (nf_f s) (dxf_f s),
                 Hff_f := free_block_fp H fr,
                 Hfc_f := free_clamped_block_fp H fr cl\<rparr>;
          s2 = s1\<lparr>Hff_f := add_reg_fp F (reg_f s1) (Hff_f s1)\<rparr>
      in s2\<lparr>Hff_inv_llt_f := Hff_f s2\<rparr>)"

text \<open>Lines 88--99.\<close>

definition reduced_hessian_fp :: "fplib \<Rightarrow> dmat \<Rightarrow> BoxQP_fp \<Rightarrow> BoxQP_fp" where
  "reduced_hessian_fp F H s =
     (let s1 = s\<lparr>Hff_f := free_block_fp H (free_idx_f s)\<rparr>;
          s2 = s1\<lparr>Hff_f := add_reg_fp F (reg_f s1) (Hff_f s1)\<rparr>
      in s2\<lparr>Hff_inv_llt_f := Hff_f s2\<rparr>)"

text \<open>Lines 104--105 and 143--144.\<close>

definition store_inverse_fp :: "fplib \<Rightarrow> BoxQP_fp \<Rightarrow> BoxQP_fp" where
  "store_inverse_fp F s = s\<lparr>Hff_inv_f := llt_inverse_fp F (nf_f s) (Hff_inv_llt_f s)\<rparr>"

text \<open>Lines 143--154.\<close>

definition newton_fp :: "fplib \<Rightarrow> BoxQP_fp \<Rightarrow> BoxQP_fp" where
  "newton_fp F s =
     (let s1 = store_inverse_fp F s;
          s2 = s1\<lparr>dxf_f := vneg_fp (qf_f s1)\<rparr>;
          s3 = (if nc_f s2 \<noteq> 0
                then s2\<lparr>dxf_f := vsub_fp F (dxf_f s2) (fprod F (Hfc_f s2) (xc_f s2))\<rparr>
                else s2);
          s4 = s3\<lparr>dxf_f := fllt_solve F (Hff_inv_llt_f s3) (dxf_f s3)\<rparr>;
          s5 = s4\<lparr>dxf_f := vsub_fp F (dxf_f s4) (xf_f s4)\<rparr>;
          s6 = s5\<lparr>dx_f := replicate (nx_f s5) (Fin 0)\<rparr>
      in s6\<lparr>dx_f := fold (\<lambda>i d. d[free_idx_f s6 ! i := dxf_f s6 ! i]) [0..<nf_f s6] (dx_f s6)\<rparr>)"

text \<open>
  Lines 167--177; the test of line 173 is
  \<open>fold - fnew > th_acceptstep_ * g_.dot(x_ - xnew_)\<close>.
\<close>

fun line_search_fp :: "fplib \<Rightarrow> dmat \<Rightarrow> dvec \<Rightarrow> dvec \<Rightarrow> dvec \<Rightarrow> dbl \<Rightarrow> dbl list \<Rightarrow> BoxQP_fp
    \<Rightarrow> BoxQP_fp" where
  "line_search_fp F H q lb ub fold0 [] s = s"
| "line_search_fp F H q lb ub fold0 (steplength # rest) s =
     (let s1 = s\<lparr>xnew_f := project_fp (nx_f s) lb ub
                    (map (\<lambda>i. fadd F (x_f s ! i) (fmul F steplength (dx_f s ! i))) [0..<nx_f s])\<rparr>;
          fnew = objective_fp F H q (xnew_f s1)
      in if dless (fmul F (th_acceptstep_f s1) (fdot F (g_f s1) (vsub_fp F (x_f s1) (xnew_f s1))))
                  (fsub F fold0 fnew)
         then s1\<lparr>x_f := xnew_f s1\<rparr>
         else line_search_fp F H q lb ub fold0 rest s1)"

text \<open>Lines 107--110, 158--161, 179--182.\<close>

definition store_solution_fp :: "BoxQP_fp \<Rightarrow> BoxQP_fp" where
  "store_solution_fp s =
     s\<lparr>solution_f := (solution_f s)\<lparr>fsol_Hff_inv := Hff_inv_f s, fsol_x := x_f s,
                                      fsol_free_idx := free_idx_f s,
                                      fsol_clamped_idx := clamped_idx_f s\<rparr>\<rparr>"

subsection \<open>The iteration and solve\<close>

datatype step_fp = Return_fp BoxQP_fp | Throw_fp exn BoxQP_fp | Continue_fp BoxQP_fp

text \<open>Line 86: \<open>g_.lpNorm<Eigen::Infinity>() <= th_grad_ || nf_ == 0\<close>.\<close>

definition converged_fp :: "fplib \<Rightarrow> BoxQP_fp \<Rightarrow> bool" where
  "converged_fp F s = (dle (fnorm F (g_f s)) (th_grad_f s) \<or> nf_f s = 0)"

definition iteration_fp :: "fplib \<Rightarrow> dmat \<Rightarrow> dvec \<Rightarrow> dvec \<Rightarrow> dvec \<Rightarrow> nat \<Rightarrow> BoxQP_fp \<Rightarrow> step_fp" where
  "iteration_fp F H q lb ub k s0 =
     (let s = partition_step_fp F H q lb ub s0 in
      if converged_fp F s then
        (if k = 0 then
           (let s1 = reduced_hessian_fp F H s in
            if \<not> fllt_info F (Hff_inv_llt_f s1) then Throw_fp Backward_error s1
            else Return_fp (store_solution_fp (store_inverse_fp F s1)))
         else Return_fp (store_solution_fp s))
      else
        (let s1 = assemble_fp F H q s in
         if \<not> fllt_info F (Hff_inv_llt_f s1) then Throw_fp Backward_error s1
         else
           (let s2 = newton_fp F s1 in
            if dless (fnorm F (dx_f s2)) (th_grad_f s2) then Return_fp (store_solution_fp s2)
            else Continue_fp (line_search_fp F H q lb ub (objective_fp F H q (x_f s2))
                                (alphas_f s2) s2))))"

fun loop_fp :: "fplib \<Rightarrow> dmat \<Rightarrow> dvec \<Rightarrow> dvec \<Rightarrow> dvec \<Rightarrow> nat \<Rightarrow> nat \<Rightarrow> BoxQP_fp
    \<Rightarrow> (exn + BoxQPSolution_fp) \<times> BoxQP_fp" where
  "loop_fp F H q lb ub k 0 s = (let s' = store_solution_fp s in (Inr (solution_f s'), s'))"
| "loop_fp F H q lb ub k (Suc m) s =
     (case iteration_fp F H q lb ub k s of
        Return_fp s' \<Rightarrow> (Inr (solution_f s'), s')
      | Throw_fp e s' \<Rightarrow> (Inl e, s')
      | Continue_fp s' \<Rightarrow> loop_fp F H q lb ub (Suc k) m s')"

text \<open>\<open>BoxQP::solve\<close> over floating-point values.\<close>

definition solve_fp :: "fplib \<Rightarrow> BoxQP_fp \<Rightarrow> dmat \<Rightarrow> dvec \<Rightarrow> dvec \<Rightarrow> dvec \<Rightarrow> dvec
    \<Rightarrow> (exn + BoxQPSolution_fp) \<times> BoxQP_fp" where
  "solve_fp F s H q lb ub xinit =
     (if drows H \<noteq> nx_f s \<or> dcols H \<noteq> nx_f s then (Inl (Invalid_argument ArgH), s)
      else if length q \<noteq> nx_f s then (Inl (Invalid_argument Argq), s)
      else if length lb \<noteq> nx_f s then (Inl (Invalid_argument Arglb), s)
      else if length ub \<noteq> nx_f s then (Inl (Invalid_argument Argub), s)
      else if length xinit \<noteq> nx_f s then (Inl (Invalid_argument Argxinit), s)
      else loop_fp F H q lb ub 0 (maxiter_f s) (s\<lparr>x_f := project_fp (nx_f s) lb ub xinit\<rparr>))"

subsection \<open>What is assumed of the arithmetic, and an arithmetic without rounding\<close>

text \<open>
  NaN propagates: \<open>+\<close>, \<open>-\<close>, \<open>*\<close> give NaN when an operand is NaN, and so does the dot
  product of two vectors of the same size when the second has a NaN coefficient (it is a
  sum of products in some order).
\<close>

definition nan_propagating :: "fplib \<Rightarrow> bool" where
  "nan_propagating F =
     ((\<forall>a. fadd F a NaN = NaN \<and> fadd F NaN a = NaN \<and> fsub F a NaN = NaN \<and> fsub F NaN a = NaN
           \<and> fmul F a NaN = NaN \<and> fmul F NaN a = NaN)
      \<and> (\<forall>u v. length u = length v \<and> NaN \<in> set v \<longrightarrow> fdot F u v = NaN))"


text \<open>
  Modelled from the spec: the arithmetic of \<open>double\<close> and the dense linear-algebra
  primitives of the library (neither is code of this repository), without rounding. It
  instantiates the parameter \<open>F\<close> on concrete inputs whose operations are exact in binary
  floating point. The sum and the product follow IEEE 754 on NaN and on the infinities;
  the dot product and the matrix-vector product sum in index order; the norm starts from
  the first coefficient and replaces it by a greater one; the factorisation is
  \<open>exact_llt\<close> on finite data.
\<close>

fun exact_add :: "dbl \<Rightarrow> dbl \<Rightarrow> dbl" where
  "exact_add NaN b = NaN"
| "exact_add a NaN = NaN"
| "exact_add (Fin x) (Fin y) = Fin (x + y)"
| "exact_add PInf MInf = NaN"
| "exact_add MInf PInf = NaN"
| "exact_add PInf b = PInf"
| "exact_add a PInf = PInf"
| "exact_add MInf b = MInf"
| "exact_add a MInf = MInf"

definition exact_sub :: "dbl \<Rightarrow> dbl \<Rightarrow> dbl" where
  "exact_sub a b = exact_add a (dneg b)"

fun exact_mul :: "dbl \<Rightarrow> dbl \<Rightarrow> dbl" where
  "exact_mul NaN b = NaN"
| "exact_mul a NaN = NaN"
| "exact_mul (Fin x) (Fin y) = Fin (x * y)"
| "exact_mul (Fin x) b = (if x = 0 then NaN else if 0 < x then b else dneg b)"
| "exact_mul a (Fin y) = (if y = 0 then NaN else if 0 < y then a else dneg a)"
| "exact_mul PInf b = b"
| "exact_mul MInf b = dneg b"

definition exact_dot :: "dvec \<Rightarrow> dvec \<Rightarrow> dbl" where
  "exact_dot u v = foldl exact_add (Fin 0) (map (\<lambda>i. exact_mul (u ! i) (v ! i)) [0..<length u])"

definition exact_prod :: "dmat \<Rightarrow> dvec \<Rightarrow> dvec" where
  "exact_prod A v =
     map (\<lambda>i. foldl exact_add (Fin 0) (map (\<lambda>j. exact_mul (dcoeff A i j) (v ! j)) [0..<dcols A]))
       [0..<drows A]"

fun dabs :: "dbl \<Rightarrow> dbl" where
  "dabs NaN = NaN"
| "dabs MInf = PInf"
| "dabs (Fin x) = Fin \<bar>x\<bar>"
| "dabs PInf = PInf"

fun exact_norm :: "dvec \<Rightarrow> dbl" where
  "exact_norm [] = Fin 0"
| "exact_norm (a # as) = foldl (\<lambda>res v. if dless res (dabs v) then dabs v else res) (dabs a) as"

fun the_real :: "dbl \<Rightarrow> real" where
  "the_real (Fin x) = x"
| "the_real a = 0"

fun is_fin :: "dbl \<Rightarrow> bool" where
  "is_fin (Fin x) = True"
| "is_fin a = False"

definition real_mat :: "dmat \<Rightarrow> mat" where
  "real_mat A = \<lparr>rows = drows A, cols = dcols A, coeff = (\<lambda>i j. the_real (dcoeff A i j))\<rparr>"

definition fin_mat :: "dmat \<Rightarrow> bool" where
  "fin_mat A = list_all (\<lambda>i. list_all (\<lambda>j. is_fin (dcoeff A i j)) [0..<dcols A]) [0..<drows A]"

definition exact_fp :: fplib where
  "exact_fp =
     \<lparr>fadd = exact_add, fsub = exact_sub, fmul = exact_mul, fdot = exact_dot,
      fprod = exact_prod, fnorm = exact_norm,
      fllt_info = (\<lambda>A. fin_mat A \<and> llt_info exact_llt (real_mat A)),
      fllt_solve = (\<lambda>A b. if fin_mat A \<and> list_all is_fin b
                           then map Fin (llt_solve exact_llt (real_mat A) (map the_real b))
                           else replicate (drows A) NaN)\<rparr>"

section \<open>Notions used by the properties\<close>

text \<open>
  The active-set test, the list of dimension checks, the trial point of the line search
  and its acceptance test, as the specification words them.
\<close>

definition clamp_test :: "vec \<Rightarrow> vec \<Rightarrow> vec \<Rightarrow> vec \<Rightarrow> nat \<Rightarrow> bool" where
  "clamp_test x g lb ub j = ((x ! j = lb ! j \<and> g ! j > 0) \<or> (x ! j = ub ! j \<and> g ! j < 0))"

definition dimension_checks :: "nat \<Rightarrow> mat \<Rightarrow> vec \<Rightarrow> vec \<Rightarrow> vec \<Rightarrow> vec \<Rightarrow> (arg \<times> bool) list" where
  "dimension_checks n H q lb ub xinit =
     [(ArgH, rows H = n \<and> cols H = n), (Argq, length q = n), (Arglb, length lb = n),
      (Argub, length ub = n), (Argxinit, length xinit = n)]"

definition trial_point :: "nat \<Rightarrow> vec \<Rightarrow> vec \<Rightarrow> vec \<Rightarrow> vec \<Rightarrow> real \<Rightarrow> vec" where
  "trial_point n lb ub x dx \<alpha> = project n lb ub (map (\<lambda>i. x ! i + \<alpha> * dx ! i) [0..<n])"

definition accepts :: "mat \<Rightarrow> vec \<Rightarrow> real \<Rightarrow> vec \<Rightarrow> vec \<Rightarrow> real \<Rightarrow> vec \<Rightarrow> bool" where
  "accepts H q th g x fold0 xnew = (fold0 - objective H q xnew > th * dot g (vsub x xnew))"

text \<open>
  Bound consistency of a solution for dimension \<open>n\<close>: the free and the clamped list are
  disjoint and without repetition, together they hold exactly the indices \<open>0..n-1\<close>, and
  the point sits on one of its two bounds at every clamped index.
\<close>

definition partition_ok :: "nat \<Rightarrow> vec \<Rightarrow> vec \<Rightarrow> BoxQPSolution \<Rightarrow> bool" where
  "partition_ok n lb ub sol =
     (distinct (sol_free_idx sol @ sol_clamped_idx sol)
      \<and> set (sol_free_idx sol @ sol_clamped_idx sol) = set [0..<n]
      \<and> length (sol_free_idx sol) + length (sol_clamped_idx sol) = n
      \<and> list_all (\<lambda>j. sol_x sol ! j = lb ! j \<or> sol_x sol ! j = ub ! j) (sol_clamped_idx sol))"

text \<open>
  The same for the members of the solver object between two iterations.
\<close>

definition partitioned :: "vec \<Rightarrow> vec \<Rightarrow> BoxQP \<Rightarrow> bool" where
  "partitioned lb ub s =
     (distinct (free_idx_m s @ clamped_idx_m s)
      \<and> set (free_idx_m s @ clamped_idx_m s) = set [0..<nx_m s]
      \<and> length (free_idx_m s) + length (clamped_idx_m s) = nx_m s
      \<and> list_all (\<lambda>j. x_m s ! j = lb ! j \<or> x_m s ! j = ub ! j) (clamped_idx_m s))"

text \<open>
  The inverse that the factorisation gives for the regularised free-free block of the free
  list \<open>fr\<close>.
\<close>

definition inverse_for :: "llt \<Rightarrow> mat \<Rightarrow> real \<Rightarrow> nat list \<Rightarrow> mat" where
  "inverse_for L H r fr = llt_inverse L (length fr) (add_reg r (free_block H fr))"

text \<open>The solver object that a pass through the loop body leaves behind.\<close>

definition step_state :: "step \<Rightarrow> BoxQP" where
  "step_state st = (case st of Return s \<Rightarrow> s | Throw e s \<Rightarrow> s | Continue s \<Rightarrow> s)"

text \<open>
  The trial point of the line search and the test of line 173 over floating-point values,
  and membership in the box with the comparison \<open><=\<close> of \<open>double\<close>.
\<close>

definition trial_point_fp :: "fplib \<Rightarrow> nat \<Rightarrow> dvec \<Rightarrow> dvec \<Rightarrow> dvec \<Rightarrow> dvec \<Rightarrow> dbl \<Rightarrow> dvec" where
  "trial_point_fp F n lb ub x dx \<alpha> =
     project_fp n lb ub (map (\<lambda>i. fadd F (x ! i) (fmul F \<alpha> (dx ! i))) [0..<n])"

definition accepts_fp :: "fplib \<Rightarrow> dmat \<Rightarrow> dvec \<Rightarrow> dbl \<Rightarrow> dvec \<Rightarrow> dvec \<Rightarrow> dbl \<Rightarrow> dvec \<Rightarrow> bool" where
  "accepts_fp F H q th g x fold0 xnew =
     dless (fmul F th (fdot F g (vsub_fp F x xnew))) (fsub F fold0 (objective_fp F H q xnew))"

definition in_box_fp :: "nat \<Rightarrow> dvec \<Rightarrow> dvec \<Rightarrow> dvec \<Rightarrow> bool" where
  "in_box_fp n lb ub x =
     (length x = n \<and> list_all (\<lambda>j. dle (lb ! j) (x ! j) \<and> dle (x ! j) (ub ! j)) [0..<n])"

section \<open>Auxiliary lemmas\<close>

subsection \<open>The effect of each piece on the solver object\<close>

lemma classify_eq:
  "classify lb ub j s =
     (if clamp_test (x_m s) (g_m s) lb ub j then s\<lparr>clamped_idx_m := clamped_idx_m s @ [j]\<rparr>
      else s\<lparr>free_idx_m := free_idx_m s @ [j]\<rparr>)"
  by (simp add: classify_def clamp_test_def Let_def)

lemma fold_classify:
  "fold (classify lb ub) js s =
     s\<lparr>clamped_idx_m := clamped_idx_m s @ filter (clamp_test (x_m s) (g_m s) lb ub) js,
       free_idx_m := free_idx_m s @ filter (\<lambda>j. \<not> clamp_test (x_m s) (g_m s) lb ub j) js\<rparr>"
proof (induction js arbitrary: s)
  case Nil
  show ?case by simp
next
  case (Cons j js)
  have "fold (classify lb ub) (j # js) s = fold (classify lb ub) js (classify lb ub j s)"
    by simp
  also have "\<dots> = (classify lb ub j s)
      \<lparr>clamped_idx_m := clamped_idx_m (classify lb ub j s)
          @ filter (clamp_test (x_m (classify lb ub j s)) (g_m (classify lb ub j s)) lb ub) js,
       free_idx_m := free_idx_m (classify lb ub j s)
          @ filter (\<lambda>j'. \<not> clamp_test (x_m (classify lb ub j s)) (g_m (classify lb ub j s))
                               lb ub j') js\<rparr>"
    by (rule Cons.IH)
  also have "\<dots> = s
      \<lparr>clamped_idx_m := clamped_idx_m s @ filter (clamp_test (x_m s) (g_m s) lb ub) (j # js),
       free_idx_m := free_idx_m s
          @ filter (\<lambda>j'. \<not> clamp_test (x_m s) (g_m s) lb ub j') (j # js)\<rparr>"
    by (simp add: classify_eq)
  finally show ?case .
qed

lemma partition_step_eq:
  "partition_step H q lb ub s =
     (let g = vadd q (mat_vec H (x_m s));
          cl = filter (clamp_test (x_m s) g lb ub) [0..<nx_m s];
          fr = filter (\<lambda>j. \<not> clamp_test (x_m s) g lb ub j) [0..<nx_m s]
      in s\<lparr>g_m := g, clamped_idx_m := cl, free_idx_m := fr, nf_m := length fr, nc_m := length cl\<rparr>)"
  by (simp add: partition_step_def fold_classify Let_def)

lemma partition_step_fields [simp]:
  "x_m (partition_step H q lb ub s) = x_m s"
  "nx_m (partition_step H q lb ub s) = nx_m s"
  "th_grad_m (partition_step H q lb ub s) = th_grad_m s"
  "th_acceptstep_m (partition_step H q lb ub s) = th_acceptstep_m s"
  "reg_m (partition_step H q lb ub s) = reg_m s"
  "alphas_m (partition_step H q lb ub s) = alphas_m s"
  "Hff_inv_m (partition_step H q lb ub s) = Hff_inv_m s"
  "g_m (partition_step H q lb ub s) = vadd q (mat_vec H (x_m s))"
  "nf_m (partition_step H q lb ub s) = length (free_idx_m (partition_step H q lb ub s))"
  "nc_m (partition_step H q lb ub s) = length (clamped_idx_m (partition_step H q lb ub s))"
  by (simp_all add: partition_step_eq Let_def)

lemma assemble_fields [simp]:
  "x_m (assemble H q s) = x_m s"
  "nx_m (assemble H q s) = nx_m s"
  "g_m (assemble H q s) = g_m s"
  "th_grad_m (assemble H q s) = th_grad_m s"
  "th_acceptstep_m (assemble H q s) = th_acceptstep_m s"
  "reg_m (assemble H q s) = reg_m s"
  "alphas_m (assemble H q s) = alphas_m s"
  "free_idx_m (assemble H q s) = free_idx_m s"
  "clamped_idx_m (assemble H q s) = clamped_idx_m s"
  "nf_m (assemble H q s) = nf_m s"
  "nc_m (assemble H q s) = nc_m s"
  by (simp_all add: assemble_def Let_def)

lemma newton_fields [simp]:
  "x_m (newton L s) = x_m s"
  "nx_m (newton L s) = nx_m s"
  "g_m (newton L s) = g_m s"
  "th_grad_m (newton L s) = th_grad_m s"
  "th_acceptstep_m (newton L s) = th_acceptstep_m s"
  "reg_m (newton L s) = reg_m s"
  "alphas_m (newton L s) = alphas_m s"
  "free_idx_m (newton L s) = free_idx_m s"
  "clamped_idx_m (newton L s) = clamped_idx_m s"
  "nf_m (newton L s) = nf_m s"
  "nc_m (newton L s) = nc_m s"
  "Hff_inv_llt_m (newton L s) = Hff_inv_llt_m s"
  "Hff_inv_m (newton L s) = llt_inverse L (nf_m s) (Hff_inv_llt_m s)"
  by (simp_all add: newton_def store_inverse_def Let_def)

lemma reduced_hessian_fields [simp]:
  "x_m (reduced_hessian H s) = x_m s"
  "nx_m (reduced_hessian H s) = nx_m s"
  "g_m (reduced_hessian H s) = g_m s"
  "free_idx_m (reduced_hessian H s) = free_idx_m s"
  "clamped_idx_m (reduced_hessian H s) = clamped_idx_m s"
  "nf_m (reduced_hessian H s) = nf_m s"
  "Hff_inv_llt_m (reduced_hessian H s) = add_reg (reg_m s) (free_block H (free_idx_m s))"
  by (simp_all add: reduced_hessian_def Let_def)

lemma store_inverse_fields [simp]:
  "x_m (store_inverse L s) = x_m s"
  "nx_m (store_inverse L s) = nx_m s"
  "g_m (store_inverse L s) = g_m s"
  "free_idx_m (store_inverse L s) = free_idx_m s"
  "clamped_idx_m (store_inverse L s) = clamped_idx_m s"
  "Hff_inv_m (store_inverse L s) = llt_inverse L (nf_m s) (Hff_inv_llt_m s)"
  by (simp_all add: store_inverse_def)

lemma store_solution_fields [simp]:
  "x_m (store_solution s) = x_m s"
  "nx_m (store_solution s) = nx_m s"
  "g_m (store_solution s) = g_m s"
  "free_idx_m (store_solution s) = free_idx_m s"
  "clamped_idx_m (store_solution s) = clamped_idx_m s"
  "Hff_inv_m (store_solution s) = Hff_inv_m s"
  "sol_x (solution_m (store_solution s)) = x_m s"
  "sol_free_idx (solution_m (store_solution s)) = free_idx_m s"
  "sol_clamped_idx (solution_m (store_solution s)) = clamped_idx_m s"
  "sol_Hff_inv (solution_m (store_solution s)) = Hff_inv_m s"
  by (simp_all add: store_solution_def)

lemma line_search_fields [simp]:
  "nx_m (line_search H q lb ub f as s) = nx_m s"
  "g_m (line_search H q lb ub f as s) = g_m s"
  "dx_m (line_search H q lb ub f as s) = dx_m s"
  "free_idx_m (line_search H q lb ub f as s) = free_idx_m s"
  "clamped_idx_m (line_search H q lb ub f as s) = clamped_idx_m s"
  "Hff_inv_m (line_search H q lb ub f as s) = Hff_inv_m s"
  "Hff_inv_llt_m (line_search H q lb ub f as s) = Hff_inv_llt_m s"
  "nf_m (line_search H q lb ub f as s) = nf_m s"
  "th_acceptstep_m (line_search H q lb ub f as s) = th_acceptstep_m s"
  "th_grad_m (line_search H q lb ub f as s) = th_grad_m s"
  "reg_m (line_search H q lb ub f as s) = reg_m s"
  "alphas_m (line_search H q lb ub f as s) = alphas_m s"
  by (induction as arbitrary: s; simp add: Let_def)+

lemma line_search_x:
  "x_m (line_search H q lb ub f as s) =
     (case find (\<lambda>\<alpha>. accepts H q (th_acceptstep_m s) (g_m s) (x_m s) f
                        (trial_point (nx_m s) lb ub (x_m s) (dx_m s) \<alpha>)) as of
        None \<Rightarrow> x_m s
      | Some \<alpha> \<Rightarrow> trial_point (nx_m s) lb ub (x_m s) (dx_m s) \<alpha>)"
proof (induction as arbitrary: s)
  case Nil
  show ?case by simp
next
  case (Cons a as)
  let ?s1 = "s\<lparr>xnew_m := trial_point (nx_m s) lb ub (x_m s) (dx_m s) a\<rparr>"
  show ?case
  proof (cases "accepts H q (th_acceptstep_m s) (g_m s) (x_m s) f
                  (trial_point (nx_m s) lb ub (x_m s) (dx_m s) a)")
    case True
    then show ?thesis by (simp add: Let_def accepts_def trial_point_def)
  next
    case False
    have "x_m (line_search H q lb ub f (a # as) s) = x_m (line_search H q lb ub f as ?s1)"
      using False by (simp add: Let_def accepts_def trial_point_def)
    also have "\<dots> = (case find (\<lambda>\<alpha>. accepts H q (th_acceptstep_m ?s1) (g_m ?s1) (x_m ?s1) f
                        (trial_point (nx_m ?s1) lb ub (x_m ?s1) (dx_m ?s1) \<alpha>)) as of
        None \<Rightarrow> x_m ?s1
      | Some \<alpha> \<Rightarrow> trial_point (nx_m ?s1) lb ub (x_m ?s1) (dx_m ?s1) \<alpha>)"
      by (rule Cons.IH)
    finally show ?thesis using False by (simp split: option.split)
  qed
qed

subsection \<open>The partition and the clamped coordinates\<close>

lemma partition_step_lists:
  "clamped_idx_m (partition_step H q lb ub s)
     = filter (clamp_test (x_m s) (vadd q (mat_vec H (x_m s))) lb ub) [0..<nx_m s]"
  "free_idx_m (partition_step H q lb ub s)
     = filter (\<lambda>j. \<not> clamp_test (x_m s) (vadd q (mat_vec H (x_m s))) lb ub j) [0..<nx_m s]"
  by (simp_all add: partition_step_eq Let_def)

lemma filter_split_ok:
  "distinct (filter (\<lambda>j. \<not> P j) [0..<n] @ filter P [0..<n])"
  "set (filter (\<lambda>j. \<not> P j) [0..<n] @ filter P [0..<n]) = set [0..<n]"
  "length (filter (\<lambda>j. \<not> P j) [0..<n]) + length (filter P [0..<n]) = n"
proof -
  show "distinct (filter (\<lambda>j. \<not> P j) [0..<n] @ filter P [0..<n])" by auto
  show "set (filter (\<lambda>j. \<not> P j) [0..<n] @ filter P [0..<n]) = set [0..<n]" by auto
  have "length (filter P [0..<n]) + length (filter (\<lambda>j. \<not> P j) [0..<n]) = length [0..<n]"
    by (rule sum_length_filter_compl)
  then show "length (filter (\<lambda>j. \<not> P j) [0..<n]) + length (filter P [0..<n]) = n" by simp
qed

lemma partition_step_partitioned: "partitioned lb ub (partition_step H q lb ub s)"
proof -
  let ?P = "clamp_test (x_m s) (vadd q (mat_vec H (x_m s))) lb ub"
  have "list_all (\<lambda>j. x_m s ! j = lb ! j \<or> x_m s ! j = ub ! j) (filter ?P [0..<nx_m s])"
    by (auto simp add: list_all_iff clamp_test_def)
  then show ?thesis
    unfolding partitioned_def partition_step_lists
    using filter_split_ok [of ?P "nx_m s"] by simp
qed

lemma scatter_outside:
  "j \<notin> (\<lambda>i. fr ! i) ` set is \<Longrightarrow> fold (\<lambda>i d. d[fr ! i := v ! i]) is d ! j = d ! j"
  by (induction "is" arbitrary: d) auto

lemma newton_dx_clamped:
  assumes "nf_m s = length (free_idx_m s)" and "j \<notin> set (free_idx_m s)" and "j < nx_m s"
  shows "dx_m (newton L s) ! j = 0"
proof -
  have "(\<lambda>i. free_idx_m s ! i) ` set [0..<length (free_idx_m s)] = set (free_idx_m s)"
    using nth_image [of "length (free_idx_m s)" "free_idx_m s"] by simp
  with assms(2) have "j \<notin> (\<lambda>i. free_idx_m s ! i) ` set [0..<length (free_idx_m s)]" by simp
  then show ?thesis
    using assms(1,3) by (simp add: newton_def store_inverse_def Let_def scatter_outside)
qed

lemma trial_point_clamped:
  assumes "j < n" and "dx ! j = 0" and "lb ! j \<le> x ! j"
    and "x ! j = lb ! j \<or> x ! j = ub ! j"
  shows "trial_point n lb ub x dx \<alpha> ! j = x ! j"
  using assms by (auto simp add: trial_point_def project_def)

lemma trial_point_lower: "j < n \<Longrightarrow> lb ! j \<le> trial_point n lb ub x dx \<alpha> ! j"
  by (simp add: trial_point_def project_def)

lemma iteration_Return_partition:
  assumes "iteration L H q lb ub k s0 = Return s'"
  shows "partition_ok (nx_m s0) lb ub (solution_m s')"
proof -
  let ?p = "partition_step H q lb ub s0"
  have p: "partitioned lb ub ?p" by (rule partition_step_partitioned)
  from assms have "sol_x (solution_m s') = x_m ?p \<and> sol_free_idx (solution_m s') = free_idx_m ?p
    \<and> sol_clamped_idx (solution_m s') = clamped_idx_m ?p"
    by (auto simp add: iteration_def Let_def split: if_splits)
  with p show ?thesis by (simp add: partitioned_def partition_ok_def)
qed

lemma iteration_Continue_partition:
  assumes "iteration L H q lb ub k s0 = Continue s'"
    and "\<forall>j<nx_m s0. lb ! j \<le> x_m s0 ! j"
  shows "partitioned lb ub s' \<and> nx_m s' = nx_m s0 \<and> (\<forall>j<nx_m s0. lb ! j \<le> x_m s' ! j)"
proof -
  let ?p = "partition_step H q lb ub s0"
  let ?n = "newton L (assemble H q ?p)"
  have p: "partitioned lb ub ?p" by (rule partition_step_partitioned)
  from assms(1) have s': "s' = line_search H q lb ub (objective H q (x_m s0)) (alphas_m s0) ?n"
    by (auto simp add: iteration_def Let_def split: if_splits)
  have lists: "free_idx_m s' = free_idx_m ?p" "clamped_idx_m s' = clamped_idx_m ?p"
    "nx_m s' = nx_m s0"
    by (simp_all add: s')
  have x: "x_m s' = x_m s0 \<or> (\<exists>\<alpha>. x_m s' = trial_point (nx_m s0) lb ub (x_m s0) (dx_m ?n) \<alpha>)"
    by (auto simp add: s' line_search_x split: option.splits)
  have cl: "x_m s' ! j = x_m s0 ! j" if j: "j \<in> set (clamped_idx_m ?p)" for j
  proof -
    from p j have jn: "j < nx_m s0" and jf: "j \<notin> set (free_idx_m ?p)"
      and jb: "x_m s0 ! j = lb ! j \<or> x_m s0 ! j = ub ! j"
      by (auto simp add: partitioned_def list_all_iff)
    have "dx_m ?n ! j = 0"
      by (rule newton_dx_clamped) (use jn jf in simp_all)
    with x jn jb assms(2) show ?thesis
      by (auto simp add: trial_point_clamped)
  qed
  have low: "\<forall>j<nx_m s0. lb ! j \<le> x_m s' ! j"
    using x assms(2) by (auto simp add: trial_point_lower)
  from p cl have "partitioned lb ub s'"
    by (simp add: partitioned_def lists list_all_iff)
  with low lists show ?thesis by simp
qed

lemma loop_partition:
  assumes "\<forall>j<nx_m s. lb ! j \<le> x_m s ! j" and "m = 0 \<longrightarrow> partitioned lb ub s"
    and "loop L H q lb ub k m s = (Inr sol, s')"
  shows "partition_ok (nx_m s) lb ub sol"
  using assms
proof (induction m arbitrary: k s)
  case 0
  then show ?case by (auto simp add: Let_def partitioned_def partition_ok_def)
next
  case (Suc m)
  show ?case
  proof (cases "iteration L H q lb ub k s")
    case (Return s1)
    with Suc.prems(3) iteration_Return_partition [OF Return] show ?thesis by auto
  next
    case (Throw e s1)
    with Suc.prems show ?thesis by simp
  next
    case (Continue s1)
    from iteration_Continue_partition [OF Continue Suc.prems(1)]
    have s1: "partitioned lb ub s1" "nx_m s1 = nx_m s" "\<forall>j<nx_m s1. lb ! j \<le> x_m s1 ! j"
      by simp_all
    from Suc.prems(3) Continue
    have "loop L H q lb ub (Suc k) m s1 = (Inr sol, s')" by simp
    with Suc.IH [of s1 "Suc k"] s1 show ?thesis by simp
  qed
qed

subsection \<open>The step lengths and the end of an iteration\<close>


lemma iteration_Continue_eq:
  assumes "iteration L H q lb ub k s0 = Continue s'"
  shows "s' = line_search H q lb ub (objective H q (x_m s0)) (alphas_m s0)
                (newton L (assemble H q (partition_step H q lb ub s0)))"
  using assms by (auto simp add: iteration_def Let_def split: if_splits)

lemma alphas_fields [simp]:
  "alphas_m (store_solution s) = alphas_m s"
  "alphas_m (reduced_hessian H s) = alphas_m s"
  "alphas_m (store_inverse L s) = alphas_m s"
  by (simp_all add: store_solution_def reduced_hessian_def store_inverse_def Let_def)




subsection \<open>The inverse of the reduced Hessian\<close>

lemma mat_of_rows_dims [simp]:
  "rows (mat_of_rows r c xss) = r" "cols (mat_of_rows r c xss) = c"
  by (simp_all add: mat_of_rows_def)

lemma iteration_Continue_inverse:
  assumes "iteration L H q lb ub k sp = Continue s0"
  shows "Hff_inv_m s0 = inverse_for L H (reg_m s0) (free_idx_m s0) \<and> reg_m s0 = reg_m sp"
  using iteration_Continue_eq [OF assms]
  by (simp add: inverse_for_def) (simp add: assemble_def Let_def)

lemma iteration_inverse_at_convergence:
  assumes "iteration L H q lb ub k s0 = Return s'"
    and "converged (partition_step H q lb ub s0)"
  shows "sol_Hff_inv (solution_m s') =
           (if k = 0 then inverse_for L H (reg_m s0) (sol_free_idx (solution_m s'))
            else Hff_inv_m s0)"
  using assms
  by (auto simp add: iteration_def Let_def inverse_for_def split: if_splits)

subsection \<open>The Newton direction\<close>

lemma store_solution_direction [simp]:
  "dxf_m (store_solution s) = dxf_m s"
  "dx_m (store_solution s) = dx_m s"
  by (simp_all add: store_solution_def)

lemma line_search_dxf [simp]: "dxf_m (line_search H q lb ub f as s) = dxf_m s"
  by (induction as arbitrary: s) (simp_all add: Let_def)

lemma newton_dxf_raw:
  "dxf_m (newton L s) =
     vsub (llt_solve L (Hff_inv_llt_m s)
        (if nc_m s \<noteq> 0 then vsub (vneg (qf_m s)) (mat_vec (Hfc_m s) (xc_m s)) else vneg (qf_m s)))
       (xf_m s)"
  by (simp add: newton_def store_inverse_def Let_def)

lemma newton_dx_raw:
  "dx_m (newton L s) =
     fold (\<lambda>i d. d[free_idx_m s ! i := vsub (llt_solve L (Hff_inv_llt_m s)
        (if nc_m s \<noteq> 0 then vsub (vneg (qf_m s)) (mat_vec (Hfc_m s) (xc_m s)) else vneg (qf_m s)))
       (xf_m s) ! i]) [0..<nf_m s]
       (replicate (nx_m s) 0)"
  by (simp add: newton_def store_inverse_def Let_def)

lemma newton_dx_eq:
  "dx_m (newton L s) =
     fold (\<lambda>i d. d[free_idx_m s ! i := dxf_m (newton L s) ! i]) [0..<nf_m s]
       (replicate (nx_m s) 0)"
  by (simp only: newton_dx_raw newton_dxf_raw)

lemma vsub_zero_block:
  assumes "cols A = 0" and "rows A = length u"
  shows "vsub u (mat_vec A v) = u"
proof -
  have "mat_vec A v = replicate (length u) 0"
    by (simp add: mat_vec_def assms map_replicate_const)
  then have "vsub u (mat_vec A v) = map (\<lambda>i. u ! i) [0..<length u]"
    by (simp add: vsub_def)
  then show ?thesis by (simp add: map_nth)
qed

lemma newton_dxf:
  assumes "nc_m s = cols (Hfc_m s)" and "rows (Hfc_m s) = length (qf_m s)"
  shows "dxf_m (newton L s) =
           vsub (llt_solve L (Hff_inv_llt_m s)
                   (vsub (vneg (qf_m s)) (mat_vec (Hfc_m s) (xc_m s)))) (xf_m s)"
proof (cases "nc_m s = 0")
  case True
  with assms have "vsub (vneg (qf_m s)) (mat_vec (Hfc_m s) (xc_m s)) = vneg (qf_m s)"
    by (simp add: vsub_zero_block vneg_def)
  with True show ?thesis by (simp add: newton_dxf_raw)
next
  case False
  then show ?thesis by (simp add: newton_dxf_raw)
qed

lemma scatter_length: "length (fold (\<lambda>i d. d[fr ! i := v ! i]) is d) = length d"
  by (induction "is" arbitrary: d) auto

lemma scatter_inside:
  assumes "distinct (map (\<lambda>i. fr ! i) is)" and "i \<in> set is" and "fr ! i < length d"
  shows "fold (\<lambda>i d. d[fr ! i := v ! i]) is d ! (fr ! i) = v ! i"
  using assms
proof (induction "is" arbitrary: d)
  case Nil
  then show ?case by simp
next
  case (Cons a rest)
  show ?case
  proof (cases "a = i")
    case True
    from Cons.prems(1) True have "fr ! i \<notin> (\<lambda>i. fr ! i) ` set rest" by auto
    then have "fold (\<lambda>i d. d[fr ! i := v ! i]) rest (d[fr ! i := v ! i]) ! (fr ! i)
        = d[fr ! i := v ! i] ! (fr ! i)"
      by (rule scatter_outside)
    with True Cons.prems(3) show ?thesis by simp
  next
    case False
    with Cons.prems have "i \<in> set rest" "distinct (map (\<lambda>i. fr ! i) rest)"
      "fr ! i < length (d[fr ! a := v ! a])"
      by auto
    from Cons.IH [OF this(2,1,3)] show ?thesis by simp
  qed
qed

lemma newton_dx_free:
  assumes "nf_m s = length (free_idx_m s)" and "distinct (free_idx_m s)"
    and "i < length (free_idx_m s)" and "free_idx_m s ! i < nx_m s"
  shows "dx_m (newton L s) ! (free_idx_m s ! i) = dxf_m (newton L s) ! i"
proof -
  have "map (\<lambda>i. free_idx_m s ! i) [0..<length (free_idx_m s)] = free_idx_m s"
    by (rule map_nth)
  with assms(2) have d: "distinct (map (\<lambda>i. free_idx_m s ! i) [0..<length (free_idx_m s)])"
    by simp
  have "fold (\<lambda>i d. d[free_idx_m s ! i := dxf_m (newton L s) ! i])
          [0..<length (free_idx_m s)] (replicate (nx_m s) 0) ! (free_idx_m s ! i)
        = dxf_m (newton L s) ! i"
    by (rule scatter_inside [OF d]) (use assms(3,4) in simp_all)
  then show ?thesis
    by (subst newton_dx_eq) (simp add: assms(1))
qed

lemma newton_dx_length: "length (dx_m (newton L s)) = nx_m s"
  by (subst newton_dx_eq) (simp add: scatter_length)

lemma assemble_reduced [simp]:
  "qf_m (assemble H q s) = map (\<lambda>i. q ! (free_idx_m s ! i)) [0..<nf_m s]"
  "xf_m (assemble H q s) = map (\<lambda>i. x_m s ! (free_idx_m s ! i)) [0..<nf_m s]"
  "xc_m (assemble H q s) = map (\<lambda>j. x_m s ! (clamped_idx_m s ! j)) [0..<nc_m s]"
  "Hfc_m (assemble H q s) = free_clamped_block H (free_idx_m s) (clamped_idx_m s)"
  "Hff_inv_llt_m (assemble H q s) = add_reg (reg_m s) (free_block H (free_idx_m s))"
  by (simp_all add: assemble_def Let_def)

lemma vadd_vsub_cancel: "vadd (vsub u v) v = u"
  by (rule nth_equalityI) (simp_all add: vadd_def vsub_def)

lemma iteration_direction:
  assumes "\<not> converged (partition_step H q lb ub s0)"
    and "llt_info L (add_reg (reg_m s0)
           (free_block H (free_idx_m (partition_step H q lb ub s0))))"
  shows "dxf_m (step_state (iteration L H q lb ub k s0))
           = dxf_m (newton L (assemble H q (partition_step H q lb ub s0)))"
    and "dx_m (step_state (iteration L H q lb ub k s0))
           = dx_m (newton L (assemble H q (partition_step H q lb ub s0)))"
  using assms by (simp_all add: iteration_def Let_def step_state_def)

lemma add_reg_coeff: "coeff (add_reg r A) i j = coeff A i j + (if i = j then r else 0)"
  by (simp add: add_reg_def)

subsection \<open>Floating-point values: comparisons and the clamp\<close>

lemma dless_nan [simp]: "dless a NaN = False" "dless NaN a = False"
  by (cases a; simp)+

lemma dle_nan [simp]: "dle a NaN = False" "dle NaN a = False"
  by (simp_all add: dle_def deq_def)

lemma clamp_nan [simp]: "dmax (dmin NaN ub) lb = NaN"
  by (simp add: dmin_def dmax_def)

lemma clamp_in_box:
  assumes "dle lb ub" and "v \<noteq> NaN"
  shows "dle lb (dmax (dmin v ub) lb) \<and> dle (dmax (dmin v ub) lb) ub"
  using assms by (cases v; cases lb; cases ub) (auto simp add: dle_def deq_def dmin_def dmax_def)


lemma project_fp_length [simp]: "length (project_fp n lb ub v) = n"
  by (simp add: project_fp_def)

lemma project_fp_in_box:
  assumes "\<forall>j<n. dle (lb ! j) (ub ! j)" and "\<forall>j<n. v ! j \<noteq> NaN"
  shows "in_box_fp n lb ub (project_fp n lb ub v)"
  using assms by (simp add: in_box_fp_def project_fp_def list_all_iff clamp_in_box)

lemma project_fp_nan_free_in_box:
  assumes "\<forall>j<n. dle (lb ! j) (ub ! j)" and "NaN \<notin> set (project_fp n lb ub v)"
  shows "in_box_fp n lb ub (project_fp n lb ub v)"
proof (rule project_fp_in_box [OF assms(1)], intro allI impI)
  fix j assume j: "j < n"
  show "v ! j \<noteq> NaN"
  proof
    assume "v ! j = NaN"
    with j have "project_fp n lb ub v ! j = NaN" by (simp add: project_fp_def)
    moreover from j have "project_fp n lb ub v ! j \<in> set (project_fp n lb ub v)"
      by (intro nth_mem) simp
    ultimately show False using assms(2) by simp
  qed
qed

lemma accepted_nan_free:
  assumes "nan_propagating F" and "length q = length xnew"
    and "accepts_fp F H q th g x fold0 xnew"
  shows "NaN \<notin> set xnew"
proof
  assume "NaN \<in> set xnew"
  with assms(1,2) have "fdot F q xnew = NaN" by (simp add: nan_propagating_def)
  with assms(1) have "objective_fp F H q xnew = NaN"
    by (simp add: objective_fp_def nan_propagating_def)
  with assms(1) have "fsub F fold0 (objective_fp F H q xnew) = NaN"
    by (simp add: nan_propagating_def)
  with assms(3) show False by (simp add: accepts_fp_def)
qed

subsection \<open>Floating-point values: the iterate stays in the box\<close>

lemma classify_fp_fields [simp]:
  "x_f (classify_fp lb ub j s) = x_f s"
  "nx_f (classify_fp lb ub j s) = nx_f s"
  "g_f (classify_fp lb ub j s) = g_f s"
  "th_acceptstep_f (classify_fp lb ub j s) = th_acceptstep_f s"
  "th_grad_f (classify_fp lb ub j s) = th_grad_f s"
  "alphas_f (classify_fp lb ub j s) = alphas_f s"
  by (simp_all add: classify_fp_def Let_def)

lemma fold_classify_fp_fields [simp]:
  "x_f (fold (classify_fp lb ub) js s) = x_f s"
  "nx_f (fold (classify_fp lb ub) js s) = nx_f s"
  "g_f (fold (classify_fp lb ub) js s) = g_f s"
  "th_acceptstep_f (fold (classify_fp lb ub) js s) = th_acceptstep_f s"
  "th_grad_f (fold (classify_fp lb ub) js s) = th_grad_f s"
  "alphas_f (fold (classify_fp lb ub) js s) = alphas_f s"
  by (induction js arbitrary: s; simp)+

lemma partition_step_fp_fields [simp]:
  "x_f (partition_step_fp F H q lb ub s) = x_f s"
  "nx_f (partition_step_fp F H q lb ub s) = nx_f s"
  "g_f (partition_step_fp F H q lb ub s) = vadd_fp F q (fprod F H (x_f s))"
  "th_acceptstep_f (partition_step_fp F H q lb ub s) = th_acceptstep_f s"
  "th_grad_f (partition_step_fp F H q lb ub s) = th_grad_f s"
  "alphas_f (partition_step_fp F H q lb ub s) = alphas_f s"
  by (simp_all add: partition_step_fp_def Let_def)

lemma assemble_fp_fields [simp]:
  "x_f (assemble_fp F H q s) = x_f s"
  "nx_f (assemble_fp F H q s) = nx_f s"
  "g_f (assemble_fp F H q s) = g_f s"
  "th_acceptstep_f (assemble_fp F H q s) = th_acceptstep_f s"
  "th_grad_f (assemble_fp F H q s) = th_grad_f s"
  "alphas_f (assemble_fp F H q s) = alphas_f s"
  by (simp_all add: assemble_fp_def Let_def)

lemma reduced_hessian_fp_fields [simp]:
  "x_f (reduced_hessian_fp F H s) = x_f s"
  "nx_f (reduced_hessian_fp F H s) = nx_f s"
  by (simp_all add: reduced_hessian_fp_def Let_def)

lemma store_inverse_fp_fields [simp]:
  "x_f (store_inverse_fp F s) = x_f s"
  "nx_f (store_inverse_fp F s) = nx_f s"
  "g_f (store_inverse_fp F s) = g_f s"
  "th_acceptstep_f (store_inverse_fp F s) = th_acceptstep_f s"
  "th_grad_f (store_inverse_fp F s) = th_grad_f s"
  "alphas_f (store_inverse_fp F s) = alphas_f s"
  by (simp_all add: store_inverse_fp_def)

lemma newton_fp_fields [simp]:
  "x_f (newton_fp F s) = x_f s"
  "nx_f (newton_fp F s) = nx_f s"
  "g_f (newton_fp F s) = g_f s"
  "th_acceptstep_f (newton_fp F s) = th_acceptstep_f s"
  "th_grad_f (newton_fp F s) = th_grad_f s"
  "alphas_f (newton_fp F s) = alphas_f s"
  by (simp_all add: newton_fp_def store_inverse_fp_def Let_def)

lemma store_solution_fp_fields [simp]:
  "x_f (store_solution_fp s) = x_f s"
  "nx_f (store_solution_fp s) = nx_f s"
  "fsol_x (solution_f (store_solution_fp s)) = x_f s"
  by (simp_all add: store_solution_fp_def)

lemma line_search_fp_fields [simp]:
  "nx_f (line_search_fp F H q lb ub f as s) = nx_f s"
  "g_f (line_search_fp F H q lb ub f as s) = g_f s"
  "dx_f (line_search_fp F H q lb ub f as s) = dx_f s"
  "th_acceptstep_f (line_search_fp F H q lb ub f as s) = th_acceptstep_f s"
  by (induction as arbitrary: s; simp add: Let_def)+

lemma line_search_fp_x:
  "x_f (line_search_fp F H q lb ub f as s) =
     (case find (\<lambda>\<alpha>. accepts_fp F H q (th_acceptstep_f s) (g_f s) (x_f s) f
                        (trial_point_fp F (nx_f s) lb ub (x_f s) (dx_f s) \<alpha>)) as of
        None \<Rightarrow> x_f s
      | Some \<alpha> \<Rightarrow> trial_point_fp F (nx_f s) lb ub (x_f s) (dx_f s) \<alpha>)"
proof (induction as arbitrary: s)
  case Nil
  show ?case by simp
next
  case (Cons a as)
  let ?s1 = "s\<lparr>xnew_f := trial_point_fp F (nx_f s) lb ub (x_f s) (dx_f s) a\<rparr>"
  show ?case
  proof (cases "accepts_fp F H q (th_acceptstep_f s) (g_f s) (x_f s) f
                  (trial_point_fp F (nx_f s) lb ub (x_f s) (dx_f s) a)")
    case True
    then show ?thesis by (simp add: Let_def accepts_fp_def trial_point_fp_def)
  next
    case False
    have "x_f (line_search_fp F H q lb ub f (a # as) s)
        = x_f (line_search_fp F H q lb ub f as ?s1)"
      using False by (simp add: Let_def accepts_fp_def trial_point_fp_def)
    also have "\<dots> = (case find (\<lambda>\<alpha>. accepts_fp F H q (th_acceptstep_f ?s1) (g_f ?s1)
                        (x_f ?s1) f
                        (trial_point_fp F (nx_f ?s1) lb ub (x_f ?s1) (dx_f ?s1) \<alpha>)) as of
        None \<Rightarrow> x_f ?s1
      | Some \<alpha> \<Rightarrow> trial_point_fp F (nx_f ?s1) lb ub (x_f ?s1) (dx_f ?s1) \<alpha>)"
      by (rule Cons.IH)
    finally show ?thesis using False by (simp split: option.split)
  qed
qed

lemma iteration_fp_Return_x:
  assumes "iteration_fp F H q lb ub k s0 = Return_fp s'"
  shows "fsol_x (solution_f s') = x_f s0"
  using assms by (auto simp add: iteration_fp_def Let_def split: if_splits)

lemma iteration_fp_Continue_eq:
  assumes "iteration_fp F H q lb ub k s0 = Continue_fp s'"
  shows "s' = line_search_fp F H q lb ub (objective_fp F H q (x_f s0)) (alphas_f s0)
                (newton_fp F (assemble_fp F H q (partition_step_fp F H q lb ub s0)))"
  using assms by (auto simp add: iteration_fp_def Let_def split: if_splits)

lemma iteration_fp_Continue_x:
  assumes "iteration_fp F H q lb ub k s0 = Continue_fp s1"
  shows "nx_f s1 = nx_f s0
    \<and> (x_f s1 = x_f s0
       \<or> (\<exists>v. x_f s1 = project_fp (nx_f s0) lb ub v
              \<and> accepts_fp F H q (th_acceptstep_f s0) (vadd_fp F q (fprod F H (x_f s0))) (x_f s0)
                    (objective_fp F H q (x_f s0)) (x_f s1)))"
proof -
  let ?n = "newton_fp F (assemble_fp F H q (partition_step_fp F H q lb ub s0))"
  let ?t = "trial_point_fp F (nx_f s0) lb ub (x_f s0) (dx_f ?n)"
  let ?acc = "\<lambda>\<alpha>. accepts_fp F H q (th_acceptstep_f s0) (vadd_fp F q (fprod F H (x_f s0)))
                 (x_f s0) (objective_fp F H q (x_f s0)) (?t \<alpha>)"
  have nx: "nx_f s1 = nx_f s0"
    using iteration_fp_Continue_eq [OF assms] by simp
  have x1: "x_f s1 = (case find ?acc (alphas_f s0) of None \<Rightarrow> x_f s0 | Some \<alpha> \<Rightarrow> ?t \<alpha>)"
    using iteration_fp_Continue_eq [OF assms]
    by (simp add: line_search_fp_x cong: option.case_cong)
  show ?thesis
  proof (cases "find ?acc (alphas_f s0)")
    case None
    with x1 nx show ?thesis by simp
  next
    case (Some \<alpha>)
    then have "?acc \<alpha>" by (auto simp add: find_Some_iff)
    with x1 Some nx show ?thesis by (auto simp add: trial_point_fp_def)
  qed
qed

lemma loop_fp_in_box:
  assumes "nan_propagating F" and "length q = nx_f s"
    and "\<forall>j<nx_f s. dle (lb ! j) (ub ! j)" and "in_box_fp (nx_f s) lb ub (x_f s)"
    and "loop_fp F H q lb ub k m s = (Inr sol, s')"
  shows "in_box_fp (nx_f s) lb ub (fsol_x sol)"
  using assms(2-5)
proof (induction m arbitrary: k s)
  case 0
  then show ?case by (auto simp add: Let_def)
next
  case (Suc m)
  show ?case
  proof (cases "iteration_fp F H q lb ub k s")
    case (Return_fp s1)
    with Suc.prems iteration_fp_Return_x [OF Return_fp] show ?thesis by auto
  next
    case (Throw_fp e s1)
    with Suc.prems show ?thesis by simp
  next
    case (Continue_fp s1)
    from iteration_fp_Continue_x [OF Continue_fp]
    have nx: "nx_f s1 = nx_f s"
      and x: "x_f s1 = x_f s
        \<or> (\<exists>v. x_f s1 = project_fp (nx_f s) lb ub v
              \<and> accepts_fp F H q (th_acceptstep_f s) (vadd_fp F q (fprod F H (x_f s))) (x_f s)
                    (objective_fp F H q (x_f s)) (x_f s1))"
      by auto
    have box: "in_box_fp (nx_f s1) lb ub (x_f s1)"
    proof (cases "x_f s1 = x_f s")
      case True
      with Suc.prems(3) show ?thesis by (simp add: nx)
    next
      case False
      with x obtain v where v: "x_f s1 = project_fp (nx_f s) lb ub v"
        and acc: "accepts_fp F H q (th_acceptstep_f s) (vadd_fp F q (fprod F H (x_f s))) (x_f s)
                    (objective_fp F H q (x_f s)) (x_f s1)"
        by auto
      from v Suc.prems(1) have len: "length q = length (x_f s1)" by simp
      from assms(1) len acc have "NaN \<notin> set (x_f s1)" by (rule accepted_nan_free)
      with Suc.prems(2) show ?thesis
        unfolding v nx by (intro project_fp_nan_free_in_box) simp_all
    qed
    from Suc.prems(4) Continue_fp
    have "loop_fp F H q lb ub (Suc k) m s1 = (Inr sol, s')" by simp
    with Suc.IH [of s1 "Suc k"] Suc.prems(1,2) box show ?thesis by (simp add: nx)
  qed
qed

subsection \<open>The arithmetic without rounding meets the assumptions\<close>

lemma exact_add_nan [simp]: "exact_add a NaN = NaN"
  by (cases a) simp_all

lemma exact_mul_nan [simp]: "exact_mul a NaN = NaN"
  by (cases a) simp_all

lemma foldl_exact_add_from_nan: "foldl exact_add NaN xs = NaN"
  by (induction xs) simp_all

lemma foldl_exact_add_nan: "NaN \<in> set xs \<Longrightarrow> foldl exact_add a xs = NaN"
  by (induction xs arbitrary: a) (auto simp add: foldl_exact_add_from_nan)

lemma exact_dot_nan:
  assumes "length u = length v" and "NaN \<in> set v"
  shows "exact_dot u v = NaN"
proof -
  from assms(2) obtain i where i: "i < length v" "v ! i = NaN"
    by (auto simp add: in_set_conv_nth)
  let ?ps = "map (\<lambda>i. exact_mul (u ! i) (v ! i)) [0..<length u]"
  from i assms(1) have "i < length ?ps" and "?ps ! i = NaN" by simp_all
  then have "NaN \<in> set ?ps" by (metis nth_mem)
  then show ?thesis unfolding exact_dot_def by (rule foldl_exact_add_nan)
qed

lemma exact_fp_nan_propagating: "nan_propagating exact_fp"
  by (simp add: nan_propagating_def exact_fp_def exact_sub_def exact_dot_nan)


section \<open>The claims\<close>

text \<open>
  C1 (as amended). Feasibility. For every call of \<open>solve\<close> with \<open>lb <= ub\<close> elementwise
  and an \<open>xinit\<close> without NaN, every component of the returned point lies in \<open>[lb, ub]\<close>,
  whichever way the call returns and whatever the rounding: the warm start is clamped to
  the box, every trial point of the line search is clamped to the box, and a trial point
  with a NaN component is never accepted, because its objective is NaN and the test of
  line 173 is then false. All that is assumed of the arithmetic is that NaN propagates.
  An \<open>xinit\<close> with a NaN component goes through \<open>std::max(std::min(NaN, ub), lb)\<close>
  unchanged and is returned (the counterexample below).
\<close>

theorem solve_fp_feasible:
  assumes "nan_propagating F"
    and "\<forall>j<nx_f s. dle (lb ! j) (ub ! j)"
    and "\<forall>j<nx_f s. xinit ! j \<noteq> NaN"
    and "fst (solve_fp F s H q lb ub xinit) = Inr sol"
  shows "length (fsol_x sol) = nx_f s
    \<and> (\<forall>j<nx_f s. dle (lb ! j) (fsol_x sol ! j) \<and> dle (fsol_x sol ! j) (ub ! j))"
proof -
  let ?s0 = "s\<lparr>x_f := project_fp (nx_f s) lb ub xinit\<rparr>"
  from assms(4) have q: "length q = nx_f s"
    and run: "fst (loop_fp F H q lb ub 0 (maxiter_f s) ?s0) = Inr sol"
    by (auto simp add: solve_fp_def split: if_splits)
  from run obtain s' where "loop_fp F H q lb ub 0 (maxiter_f s) ?s0 = (Inr sol, s')"
    by (cases "loop_fp F H q lb ub 0 (maxiter_f s) ?s0") auto
  moreover have "in_box_fp (nx_f ?s0) lb ub (x_f ?s0)"
    using assms(2,3) by (simp add: project_fp_in_box)
  ultimately have "in_box_fp (nx_f ?s0) lb ub (fsol_x sol)"
    using assms(1,2) q loop_fp_in_box [of F q ?s0 lb ub H 0 "maxiter_f s" sol s'] by simp
  then show ?thesis by (simp add: in_box_fp_def list_all_iff)
qed

theorem solve_fp_feasible_witness:
  "dle ([Fin 0] ! 0) ([Fin 1] ! 0) \<and> [Fin 0] ! 0 \<noteq> NaN
   \<and> (case iteration_fp exact_fp (dmat_of_rows 1 1 [[Fin 2]]) [Fin (-4)] [Fin 0] [Fin 1] 0
            ((BoxQP_fp_ctor 1 100 (Fin (1/8)) (Fin (1/1024)) (Fin 0))
               \<lparr>x_f := project_fp 1 [Fin 0] [Fin 1] [Fin 0]\<rparr>) of
         Continue_fp s1 \<Rightarrow> x_f s1 = [Fin 1] | _ \<Rightarrow> False)
   \<and> (\<exists>sol. fst (solve_fp exact_fp (BoxQP_fp_ctor 1 100 (Fin (1/8)) (Fin (1/1024)) (Fin 0))
                     (dmat_of_rows 1 1 [[Fin 2]]) [Fin (-4)] [Fin 0] [Fin 1] [Fin 0]) = Inr sol
        \<and> dle ([Fin 0] ! 0) (fsol_x sol ! 0) \<and> dle (fsol_x sol ! 0) ([Fin 1] ! 0))"
proof -
  let ?c = "BoxQP_fp_ctor 1 100 (Fin (1/8)) (Fin (1/1024)) (Fin 0)"
  let ?H = "dmat_of_rows 1 1 [[Fin 2]]"
  have nx: "nx_f ?c = 1" by (simp add: BoxQP_fp_ctor_def)
  have h1: "\<forall>j<nx_f ?c. dle ([Fin 0] ! j) ([Fin 1] ! j)"
    using nx by (simp add: dle_def deq_def)
  have h2: "\<forall>j<nx_f ?c. [Fin 0] ! j \<noteq> NaN" using nx by simp
  have step: "case iteration_fp exact_fp ?H [Fin (-4)] [Fin 0] [Fin 1] 0
            (?c\<lparr>x_f := project_fp 1 [Fin 0] [Fin 1] [Fin 0]\<rparr>) of
         Continue_fp s1 \<Rightarrow> x_f s1 = [Fin 1] | _ \<Rightarrow> False"
    by code_simp
  have "case fst (solve_fp exact_fp ?c ?H [Fin (-4)] [Fin 0] [Fin 1] [Fin 0]) of
          Inr sol \<Rightarrow> True | Inl e \<Rightarrow> False"
    by code_simp
  then obtain sol where r: "fst (solve_fp exact_fp ?c ?H [Fin (-4)] [Fin 0] [Fin 1] [Fin 0])
      = Inr sol"
    by (auto split: sum.splits)
  from solve_fp_feasible [OF exact_fp_nan_propagating h1 h2 r]
  have "dle ([Fin 0] ! 0) (fsol_x sol ! 0) \<and> dle (fsol_x sol ! 0) ([Fin 1] ! 0)"
    by (simp add: BoxQP_fp_ctor_def)
  with r step show ?thesis by (auto simp add: dle_def deq_def)
qed

theorem solve_fp_feasible_counterexample:
  "dle ([Fin 0] ! 0) ([Fin 1] ! 0)
   \<and> (case fst (solve_fp exact_fp (BoxQP_fp_ctor 1 100 (Fin (1/8)) (Fin (1/1024)) (Fin 0))
                  (dmat_of_rows 1 1 [[Fin 2]]) [Fin (-4)] [Fin 0] [Fin 1] [NaN]) of
         Inr sol \<Rightarrow> fsol_x sol = [NaN]
           \<and> \<not> (dle ([Fin 0] ! 0) (fsol_x sol ! 0) \<and> dle (fsol_x sol ! 0) ([Fin 1] ! 0))
       | Inl e \<Rightarrow> False)"
  by code_simp

text \<open>
  C2 (as amended). The Newton direction. In an iteration that gets past the convergence
  check (the gradient norm is above \<open>th_grad\<close> and the free list \<open>fr\<close> is not empty) and
  whose factorisation succeeds, the direction on the free coordinates is
  \<open>dxf = Hff\<^sup>-\<^sup>1 (- qf - Hfc xc) - xf\<close>, where \<open>Hff\<close> is the free-free block of \<open>H\<close> with
  \<open>reg\<close> added on its diagonal, \<open>Hfc\<close> the free-clamped block, \<open>qf\<close>, \<open>xf\<close> the free parts
  of \<open>q\<close> and \<open>x\<close>, \<open>xc\<close> the clamped part of \<open>x\<close>, and the product with the inverse is
  \<open>solveInPlace\<close> of the factorisation of \<open>Hff\<close>; so \<open>Hff (dxf + xf) = - qf - Hfc xc\<close>
  whenever the factorisation solves that system. The full direction \<open>dx\<close> has length \<open>nx\<close>,
  carries \<open>dxf\<close> on the free indices and is zero on every clamped index.
  A non-empty free set alone is not enough: when the gradient norm is within \<open>th_grad\<close>
  the iteration returns before any direction is computed (the counterexample below).
\<close>

theorem newton_direction:
  fixes k :: nat
  assumes "\<not> converged (partition_step H q lb ub s0)"
    and "llt_info L (add_reg (reg_m s0)
           (free_block H (free_idx_m (partition_step H q lb ub s0))))"
  defines "fr \<equiv> free_idx_m (partition_step H q lb ub s0)"
    and "cl \<equiv> clamped_idx_m (partition_step H q lb ub s0)"
    and "s' \<equiv> step_state (iteration L H q lb ub k s0)"
  defines "Hff \<equiv> add_reg (reg_m s0) (free_block H fr)"
    and "Hfc \<equiv> free_clamped_block H fr cl"
    and "qf \<equiv> map (\<lambda>i. q ! (fr ! i)) [0..<length fr]"
    and "xf \<equiv> map (\<lambda>i. x_m s0 ! (fr ! i)) [0..<length fr]"
    and "xc \<equiv> map (\<lambda>j. x_m s0 ! (cl ! j)) [0..<length cl]"
  shows "fr \<noteq> []
    \<and> dxf_m s' = vsub (llt_solve L Hff (vsub (vneg qf) (mat_vec Hfc xc))) xf
    \<and> (mat_vec Hff (llt_solve L Hff (vsub (vneg qf) (mat_vec Hfc xc)))
          = vsub (vneg qf) (mat_vec Hfc xc)
        \<longrightarrow> mat_vec Hff (vadd (dxf_m s') xf) = vsub (vneg qf) (mat_vec Hfc xc))
    \<and> (\<forall>i j. coeff Hff i j = coeff H (fr ! i) (fr ! j) + (if i = j then reg_m s0 else 0))
    \<and> length (dx_m s') = nx_m s0
    \<and> (\<forall>i<length fr. dx_m s' ! (fr ! i) = dxf_m s' ! i)
    \<and> (\<forall>j\<in>set cl. dx_m s' ! j = 0)"
proof -
  let ?p = "partition_step H q lb ub s0"
  let ?a = "assemble H q ?p"
  have p: "partitioned lb ub ?p" by (rule partition_step_partitioned)
  have dxf: "dxf_m s' = dxf_m (newton L ?a)" and dx: "dx_m s' = dx_m (newton L ?a)"
    unfolding s'_def using assms(1,2) by (rule iteration_direction)+
  from assms(1) have ne: "fr \<noteq> []" by (auto simp add: converged_def fr_def)
  have "dxf_m (newton L ?a) =
        vsub (llt_solve L (Hff_inv_llt_m ?a)
                (vsub (vneg (qf_m ?a)) (mat_vec (Hfc_m ?a) (xc_m ?a)))) (xf_m ?a)"
    by (rule newton_dxf) (simp_all add: free_clamped_block_def)
  then have f: "dxf_m s' = vsub (llt_solve L Hff (vsub (vneg qf) (mat_vec Hfc xc))) xf"
    by (simp add: dxf fr_def cl_def Hff_def Hfc_def qf_def xf_def xc_def)
  then have "vadd (dxf_m s') xf = llt_solve L Hff (vsub (vneg qf) (mat_vec Hfc xc))"
    by (simp add: vadd_vsub_cancel)
  then have sol: "mat_vec Hff (llt_solve L Hff (vsub (vneg qf) (mat_vec Hfc xc)))
          = vsub (vneg qf) (mat_vec Hfc xc)
        \<longrightarrow> mat_vec Hff (vadd (dxf_m s') xf) = vsub (vneg qf) (mat_vec Hfc xc)"
    by simp
  have c: "\<forall>i j. coeff Hff i j = coeff H (fr ! i) (fr ! j) + (if i = j then reg_m s0 else 0)"
    by (simp add: Hff_def add_reg_coeff free_block_def)
  have l: "length (dx_m s') = nx_m s0" by (simp add: dx newton_dx_length)
  have fi: "dx_m s' ! (fr ! i) = dxf_m s' ! i" if "i < length fr" for i
  proof -
    from p that have "distinct fr" "fr ! i < nx_m s0"
      by (auto simp add: partitioned_def fr_def)
    with that show ?thesis
      unfolding dx dxf using newton_dx_free [of ?a i L] by (simp add: fr_def)
  qed
  have ci: "dx_m s' ! j = 0" if "j \<in> set cl" for j
  proof -
    from p that have "j \<notin> set fr" "j < nx_m s0"
      by (auto simp add: partitioned_def fr_def cl_def)
    then show ?thesis
      unfolding dx using newton_dx_clamped [of ?a j L] by (simp add: fr_def)
  qed
  from ne f sol c l fi ci show ?thesis by blast
qed

theorem newton_direction_witness:
  "\<not> converged (partition_step (mat_of_rows 2 2 [[2, 1], [1, 2]]) [-4, 1] [0, 0] [1, 1]
          ((BoxQP_ctor 2 100 (1/8) (1/1024) 0)\<lparr>x_m := [0, 0]\<rparr>))
   \<and> llt_info exact_llt (add_reg (reg_m ((BoxQP_ctor 2 100 (1/8) (1/1024) 0)\<lparr>x_m := [0, 0]\<rparr>))
         (free_block (mat_of_rows 2 2 [[2, 1], [1, 2]])
            (free_idx_m (partition_step (mat_of_rows 2 2 [[2, 1], [1, 2]]) [-4, 1] [0, 0] [1, 1]
               ((BoxQP_ctor 2 100 (1/8) (1/1024) 0)\<lparr>x_m := [0, 0]\<rparr>)))))
   \<and> dxf_m (step_state (iteration exact_llt (mat_of_rows 2 2 [[2, 1], [1, 2]]) [-4, 1] [0, 0]
         [1, 1] 0 ((BoxQP_ctor 2 100 (1/8) (1/1024) 0)\<lparr>x_m := [0, 0]\<rparr>))) = [2]
   \<and> dx_m (step_state (iteration exact_llt (mat_of_rows 2 2 [[2, 1], [1, 2]]) [-4, 1] [0, 0]
         [1, 1] 0 ((BoxQP_ctor 2 100 (1/8) (1/1024) 0)\<lparr>x_m := [0, 0]\<rparr>))) ! 1 = 0"
proof -
  let ?H = "mat_of_rows 2 2 [[2, 1], [1, 2]]"
  let ?s0 = "(BoxQP_ctor 2 100 (1/8) (1/1024) 0)\<lparr>x_m := [0, 0]\<rparr>"
  let ?p = "partition_step ?H [-4, 1] [0, 0] [1, 1] ?s0"
  let ?fr = "free_idx_m ?p"
  let ?cl = "clamped_idx_m ?p"
  let ?s' = "step_state (iteration exact_llt ?H [-4, 1] [0, 0] [1, 1] 0 ?s0)"
  have h1: "\<not> converged ?p" by code_simp
  have h2: "llt_info exact_llt (add_reg (reg_m ?s0) (free_block ?H ?fr))" by code_simp
  have cl: "?cl = [1]" by code_simp
  have f: "vsub (llt_solve exact_llt (add_reg (reg_m ?s0) (free_block ?H ?fr))
                (vsub (vneg (map (\<lambda>i. [-4, 1] ! (?fr ! i)) [0..<length ?fr]))
                      (mat_vec (free_clamped_block ?H ?fr ?cl)
                         (map (\<lambda>j. x_m ?s0 ! (?cl ! j)) [0..<length ?cl]))))
             (map (\<lambda>i. x_m ?s0 ! (?fr ! i)) [0..<length ?fr]) = [2]"
    by code_simp
  note t = newton_direction [OF h1 h2, of 0]
  from t have "dxf_m ?s' =
        vsub (llt_solve exact_llt (add_reg (reg_m ?s0) (free_block ?H ?fr))
                (vsub (vneg (map (\<lambda>i. [-4, 1] ! (?fr ! i)) [0..<length ?fr]))
                      (mat_vec (free_clamped_block ?H ?fr ?cl)
                         (map (\<lambda>j. x_m ?s0 ! (?cl ! j)) [0..<length ?cl]))))
             (map (\<lambda>i. x_m ?s0 ! (?fr ! i)) [0..<length ?fr])"
    by (elim conjE)
  from this f have a: "dxf_m ?s' = [2]" by (rule trans)
  from t have "\<forall>j\<in>set ?cl. dx_m ?s' ! j = 0" by (elim conjE)
  with cl have b: "dx_m ?s' ! 1 = 0" by simp
  from h1 h2 a b show ?thesis by (intro conjI)
qed

theorem newton_direction_counterexample:
  "free_idx_m (partition_step (mat_of_rows 1 1 [[2]]) [-2] [0] [2]
      ((BoxQP_ctor 1 100 (1/8) (1/1024) 0)\<lparr>x_m := project 1 [0] [2] [1]\<rparr>)) = [0]
   \<and> clamped_idx_m (partition_step (mat_of_rows 1 1 [[2]]) [-2] [0] [2]
      ((BoxQP_ctor 1 100 (1/8) (1/1024) 0)\<lparr>x_m := project 1 [0] [2] [1]\<rparr>)) = []
   \<and> vsub (llt_solve exact_llt (add_reg 0 (free_block (mat_of_rows 1 1 [[2]]) [0]))
              (vsub (vneg (map (\<lambda>i. [-2] ! ([0] ! i)) [0..<1]))
                    (mat_vec (free_clamped_block (mat_of_rows 1 1 [[2]]) [0] []) [])))
           (map (\<lambda>i. [1] ! ([0] ! i)) [0..<1]) = [0]
   \<and> dxf_m (step_state (iteration exact_llt (mat_of_rows 1 1 [[2]]) [-2] [0] [2] 0
         ((BoxQP_ctor 1 100 (1/8) (1/1024) 0)\<lparr>x_m := project 1 [0] [2] [1]\<rparr>))) = []"
  by code_simp

text \<open>
  C3. The partition: with the gradient \<open>g = q + H x\<close> at the current iterate, coordinate
  \<open>j\<close> is put in the clamped list iff \<open>x\<^sub>j = lb\<^sub>j\<close> and \<open>g\<^sub>j > 0\<close>, or \<open>x\<^sub>j = ub\<^sub>j\<close> and
  \<open>g\<^sub>j < 0\<close>; it is put in the free list otherwise. In particular a coordinate on its lower
  bound with \<open>g\<^sub>j \<le> 0\<close>, or on its upper bound with \<open>g\<^sub>j \<ge> 0\<close>, is free (the two bounds
  being different, so that one of the two directions does point into the interval).
\<close>

theorem partition_classification:
  assumes "j < nx_m s"
  shows "g_m (partition_step H q lb ub s) = vadd q (mat_vec H (x_m s))
    \<and> (j \<in> set (clamped_idx_m (partition_step H q lb ub s))
         \<longleftrightarrow> (x_m s ! j = lb ! j \<and> g_m (partition_step H q lb ub s) ! j > 0)
            \<or> (x_m s ! j = ub ! j \<and> g_m (partition_step H q lb ub s) ! j < 0))
    \<and> (j \<in> set (free_idx_m (partition_step H q lb ub s))
         \<longleftrightarrow> j \<notin> set (clamped_idx_m (partition_step H q lb ub s)))
    \<and> (x_m s ! j = lb ! j \<and> lb ! j \<noteq> ub ! j \<and> g_m (partition_step H q lb ub s) ! j \<le> 0
         \<longrightarrow> j \<in> set (free_idx_m (partition_step H q lb ub s)))
    \<and> (x_m s ! j = ub ! j \<and> lb ! j \<noteq> ub ! j \<and> g_m (partition_step H q lb ub s) ! j \<ge> 0
         \<longrightarrow> j \<in> set (free_idx_m (partition_step H q lb ub s)))
    \<and> x_m (partition_step H q lb ub s) = x_m s"
  using assms by (auto simp add: partition_step_eq Let_def clamp_test_def)

theorem partition_classification_witness:
  "(0::nat) < nx_m ((BoxQP_ctor 1 100 (1/10) (1/10^9) (1/10^9))\<lparr>x_m := [0]\<rparr>)
   \<and> 0 \<in> set (free_idx_m (partition_step (mat_of_rows 1 1 [[2]]) [-4] [0] [1]
                 ((BoxQP_ctor 1 100 (1/10) (1/10^9) (1/10^9))\<lparr>x_m := [0]\<rparr>)))"
  using partition_classification [where j = 0
      and s = "(BoxQP_ctor 1 100 (1/10) (1/10^9) (1/10^9))\<lparr>x_m := [0]\<rparr>"
      and H = "mat_of_rows 1 1 [[2]]" and q = "[-4]" and lb = "[0]" and ub = "[1]"]
  by (simp add: BoxQP_ctor_def mat_of_rows_def vadd_def mat_vec_def)



text \<open>
  C5 (as amended). When an iteration ends \<open>solve\<close> through the convergence check, the
  inverse returned is that of the regularised free-free block of the terminal partition
  only if this is the first iteration (\<open>k = 0\<close>), where it is factorised on the spot. In a
  later iteration nothing is factorised: the inverse returned is the one that the Newton
  step of the preceding iteration computed, for the free list of that iteration, which
  the solver object still holds on entry.
\<close>

theorem converged_inverse:
  assumes "iteration L H q lb ub k s0 = Return s'"
    and "converged (partition_step H q lb ub s0)"
    and "k = 0 \<or> (\<exists>sp. iteration L H q lb ub (k - 1) sp = Continue s0)"
  shows "sol_Hff_inv (solution_m s') =
           inverse_for L H (reg_m s0)
             (if k = 0 then sol_free_idx (solution_m s') else free_idx_m s0)"
  using iteration_inverse_at_convergence [OF assms(1,2)] assms(3)
  by (auto simp add: iteration_Continue_inverse)

theorem converged_inverse_witness:
  "\<exists>s1 s2. iteration exact_llt (mat_of_rows 1 1 [[2]]) [-4] [0] [1] 0
               ((BoxQP_ctor 1 100 (1/8) (1/1024) 0)\<lparr>x_m := [0]\<rparr>) = Continue s1
     \<and> iteration exact_llt (mat_of_rows 1 1 [[2]]) [-4] [0] [1] 1 s1 = Return s2
     \<and> converged (partition_step (mat_of_rows 1 1 [[2]]) [-4] [0] [1] s1)
     \<and> sol_Hff_inv (solution_m s2)
         = inverse_for exact_llt (mat_of_rows 1 1 [[2]]) (reg_m s1) (free_idx_m s1)
     \<and> free_idx_m s1 = [0] \<and> sol_free_idx (solution_m s2) = []"
proof -
  let ?H = "mat_of_rows 1 1 [[2]]"
  let ?s0 = "(BoxQP_ctor 1 100 (1/8) (1/1024) 0)\<lparr>x_m := [0]\<rparr>"
  have "case iteration exact_llt ?H [-4] [0] [1] 0 ?s0 of
          Continue s1 \<Rightarrow> free_idx_m s1 = [0]
            \<and> converged (partition_step ?H [-4] [0] [1] s1)
            \<and> (case iteration exact_llt ?H [-4] [0] [1] 1 s1 of
                 Return s2 \<Rightarrow> sol_free_idx (solution_m s2) = [] | _ \<Rightarrow> False)
        | _ \<Rightarrow> False"
    by code_simp
  then obtain s1 s2 where c: "iteration exact_llt ?H [-4] [0] [1] 0 ?s0 = Continue s1"
    and f: "free_idx_m s1 = [0]" and v: "converged (partition_step ?H [-4] [0] [1] s1)"
    and r: "iteration exact_llt ?H [-4] [0] [1] 1 s1 = Return s2"
    and e: "sol_free_idx (solution_m s2) = []"
    by (auto split: step.splits)
  from c have "1 = (0::nat) \<or> (\<exists>sp. iteration exact_llt ?H [-4] [0] [1] (1 - 1) sp = Continue s1)"
    by auto
  from converged_inverse [OF r v this] c r v f e show ?thesis by auto
qed

theorem converged_inverse_counterexample:
  "case iteration exact_llt (mat_of_rows 1 1 [[2]]) [-4] [0] [1] 0
          ((BoxQP_ctor 1 2 (1/8) (1/1024) 0)\<lparr>x_m := project 1 [0] [1] [0]\<rparr>) of
     Continue s1 \<Rightarrow>
       (case iteration exact_llt (mat_of_rows 1 1 [[2]]) [-4] [0] [1] 1 s1 of
          Return s2 \<Rightarrow>
            converged (partition_step (mat_of_rows 1 1 [[2]]) [-4] [0] [1] s1)
            \<and> fst (solve exact_llt (BoxQP_ctor 1 2 (1/8) (1/1024) 0)
                      (mat_of_rows 1 1 [[2]]) [-4] [0] [1] [0]) = Inr (solution_m s2)
            \<and> sol_free_idx (solution_m s2) = []
            \<and> rows (sol_Hff_inv (solution_m s2)) = 1
            \<and> sol_Hff_inv (solution_m s2)
                \<noteq> inverse_for exact_llt (mat_of_rows 1 1 [[2]]) 0
                      (sol_free_idx (solution_m s2))
        | _ \<Rightarrow> False)
   | _ \<Rightarrow> False"
proof -
  let ?H = "mat_of_rows 1 1 [[2]]"
  let ?c = "BoxQP_ctor 1 2 (1/8) (1/1024) 0"
  let ?s0 = "?c\<lparr>x_m := project 1 [0] [1] [0]\<rparr>"
  have "case iteration exact_llt ?H [-4] [0] [1] 0 ?s0 of
          Continue s1 \<Rightarrow>
            (case iteration exact_llt ?H [-4] [0] [1] 1 s1 of
               Return s2 \<Rightarrow> converged (partition_step ?H [-4] [0] [1] s1)
                 \<and> sol_free_idx (solution_m s2) = []
                 \<and> rows (sol_Hff_inv (solution_m s2)) = 1
             | _ \<Rightarrow> False)
        | _ \<Rightarrow> False"
    by code_simp
  then obtain s1 s2 where c: "iteration exact_llt ?H [-4] [0] [1] 0 ?s0 = Continue s1"
    and r: "iteration exact_llt ?H [-4] [0] [1] 1 s1 = Return s2"
    and v: "converged (partition_step ?H [-4] [0] [1] s1)"
    and e: "sol_free_idx (solution_m s2) = []"
    and n: "rows (sol_Hff_inv (solution_m s2)) = 1"
    by (auto split: step.splits)
  have "rows (inverse_for exact_llt ?H 0 []) = 0"
    by (simp add: inverse_for_def llt_inverse_def)
  with n e have ne: "sol_Hff_inv (solution_m s2)
      \<noteq> inverse_for exact_llt ?H 0 (sol_free_idx (solution_m s2))"
    by auto
  have fields: "nx_m ?c = 1" "maxiter_m ?c = Suc (Suc 0)"
    by (simp_all add: BoxQP_ctor_def)
  have "fst (solve exact_llt ?c ?H [-4] [0] [1] [0]) = Inr (solution_m s2)"
    using c r fields by (simp add: solve_def)
  with c r v e n ne show ?thesis by simp
qed




text \<open>
  C7 (as amended). Bound consistency holds for every solution that \<open>solve\<close> returns when
  the maximum iteration count is at least 1: each pass through the loop rebuilds both
  lists from scratch, and a step of the line search does not move a clamped coordinate,
  because the direction is zero there and the coordinate already sits on its bound.
  With \<open>maxiter = 0\<close> the loop body never runs and the lists are returned as the solver
  object holds them (empty on a fresh solver), so they do not cover the indices: the
  counterexample below.
\<close>

theorem solve_partition:
  assumes "0 < maxiter_m s" and "fst (solve L s H q lb ub xinit) = Inr sol"
  shows "partition_ok (nx_m s) lb ub sol"
proof -
  let ?s0 = "s\<lparr>x_m := project (nx_m s) lb ub xinit\<rparr>"
  from assms(2) have "fst (loop L H q lb ub 0 (maxiter_m s) ?s0) = Inr sol"
    by (auto simp add: solve_def split: if_splits)
  then obtain s' where "loop L H q lb ub 0 (maxiter_m s) ?s0 = (Inr sol, s')"
    by (cases "loop L H q lb ub 0 (maxiter_m s) ?s0") auto
  moreover have "\<forall>j<nx_m ?s0. lb ! j \<le> x_m ?s0 ! j"
    by (simp add: project_def)
  ultimately show ?thesis
    using assms(1) loop_partition [of ?s0 lb "maxiter_m s" ub L H q 0 sol s'] by simp
qed

theorem solve_partition_witness:
  "0 < maxiter_m (BoxQP_ctor 1 100 (1/8) (1/1024) 0)
   \<and> (\<exists>sol. fst (solve exact_llt (BoxQP_ctor 1 100 (1/8) (1/1024) 0) (mat_of_rows 1 1 [[2]])
                     [-4] [0] [1] [0]) = Inr sol
        \<and> partition_ok (nx_m (BoxQP_ctor 1 100 (1/8) (1/1024) 0)) [0] [1] sol
        \<and> sol_clamped_idx sol = [0])"
proof -
  have h: "0 < maxiter_m (BoxQP_ctor 1 100 (1/8) (1/1024) 0)"
    by (simp add: BoxQP_ctor_def)
  have "case fst (solve exact_llt (BoxQP_ctor 1 100 (1/8) (1/1024) 0) (mat_of_rows 1 1 [[2]])
                     [-4] [0] [1] [0]) of Inr sol \<Rightarrow> sol_clamped_idx sol = [0] | Inl e \<Rightarrow> False"
    by code_simp
  then obtain sol where r: "fst (solve exact_llt (BoxQP_ctor 1 100 (1/8) (1/1024) 0)
      (mat_of_rows 1 1 [[2]]) [-4] [0] [1] [0]) = Inr sol" and c: "sol_clamped_idx sol = [0]"
    by (auto split: sum.splits)
  from solve_partition [OF h r] h r c show ?thesis by blast
qed

theorem solve_partition_counterexample:
  "fst (solve exact_llt (BoxQP_ctor 1 0 (1/8) (1/1024) 0) (mat_of_rows 1 1 [[2]])
          [-4] [0] [1] [0])
     = Inr \<lparr>sol_Hff_inv = empty_mat, sol_x = [0], sol_free_idx = [], sol_clamped_idx = []\<rparr>
   \<and> \<not> partition_ok (nx_m (BoxQP_ctor 1 0 (1/8) (1/1024) 0)) [0] [1]
         \<lparr>sol_Hff_inv = empty_mat, sol_x = [0], sol_free_idx = [], sol_clamped_idx = []\<rparr>"
  by (simp add: solve_def BoxQP_ctor_def mat_of_rows_def store_solution_def partition_ok_def
      project_def)

text \<open>
  C8. Failure of the factorisation is fatal. An iteration factorises the regularised
  free-free block of its partition unless the convergence check holds at \<open>k > 0\<close>; when
  that factorisation fails, \<open>solve\<close> throws \<open>backward_error\<close> at once: the solver object is
  left as it is right after the failed \<open>compute\<close>, nothing is tried again with another
  regularisation, and no solution is returned. In particular a failure on the partition of
  the projected warm start makes \<open>solve\<close> throw whenever \<open>maxiter\<close> is at least 1.
\<close>

theorem factorization_failure_throws:
  shows "(\<not> llt_info L (add_reg (reg_m s)
               (free_block H (free_idx_m (partition_step H q lb ub s))))
          \<and> (k = 0 \<or> \<not> converged (partition_step H q lb ub s))
          \<longrightarrow> loop L H q lb ub k (Suc m) s =
                (Inl Backward_error,
                 if converged (partition_step H q lb ub s)
                 then reduced_hessian H (partition_step H q lb ub s)
                 else assemble H q (partition_step H q lb ub s)))
    \<and> (rows H = nx_m s \<and> cols H = nx_m s \<and> length q = nx_m s \<and> length lb = nx_m s
          \<and> length ub = nx_m s \<and> length xinit = nx_m s \<and> 0 < maxiter_m s
          \<and> \<not> llt_info L (add_reg (reg_m s) (free_block H (free_idx_m
                 (partition_step H q lb ub (s\<lparr>x_m := project (nx_m s) lb ub xinit\<rparr>)))))
          \<longrightarrow> fst (solve L s H q lb ub xinit) = Inl Backward_error)"
proof -
  have hess: "Hff_inv_llt_m (assemble H q p) = add_reg (reg_m p) (free_block H (free_idx_m p))"
    for p by (simp add: assemble_def Let_def)
  have step: "loop L H q lb ub k (Suc m) s =
                (Inl Backward_error,
                 if converged (partition_step H q lb ub s)
                 then reduced_hessian H (partition_step H q lb ub s)
                 else assemble H q (partition_step H q lb ub s))"
    if "\<not> llt_info L (add_reg (reg_m s)
               (free_block H (free_idx_m (partition_step H q lb ub s))))"
      and "k = 0 \<or> \<not> converged (partition_step H q lb ub s)" for k m s
    using that by (auto simp add: iteration_def Let_def hess)
  have "fst (solve L s H q lb ub xinit) = Inl Backward_error"
    if dims: "rows H = nx_m s" "cols H = nx_m s" "length q = nx_m s" "length lb = nx_m s"
      "length ub = nx_m s" "length xinit = nx_m s" and pos: "0 < maxiter_m s"
      and bad: "\<not> llt_info L (add_reg (reg_m s) (free_block H (free_idx_m
                 (partition_step H q lb ub (s\<lparr>x_m := project (nx_m s) lb ub xinit\<rparr>)))))"
  proof -
    from pos obtain m where m: "maxiter_m s = Suc m" by (cases "maxiter_m s") auto
    show ?thesis
      using dims bad step [of "s\<lparr>x_m := project (nx_m s) lb ub xinit\<rparr>" 0 m]
      by (simp add: solve_def m)
  qed
  with step show ?thesis by blast
qed

theorem factorization_failure_throws_witness:
  "\<not> llt_info exact_llt (add_reg (reg_m (BoxQP_ctor 1 100 (1/8) (1/1024) 0))
        (free_block (mat_of_rows 1 1 [[-1]]) (free_idx_m
           (partition_step (mat_of_rows 1 1 [[-1]]) [1] [-1] [1]
              ((BoxQP_ctor 1 100 (1/8) (1/1024) 0)
                 \<lparr>x_m := project (nx_m (BoxQP_ctor 1 100 (1/8) (1/1024) 0)) [-1] [1] [0]\<rparr>)))))
   \<and> 0 < maxiter_m (BoxQP_ctor 1 100 (1/8) (1/1024) 0)
   \<and> fst (solve exact_llt (BoxQP_ctor 1 100 (1/8) (1/1024) 0) (mat_of_rows 1 1 [[-1]])
            [1] [-1] [1] [0]) = Inl Backward_error"
proof -
  have bad: "\<not> llt_info exact_llt (add_reg (reg_m (BoxQP_ctor 1 100 (1/8) (1/1024) 0))
        (free_block (mat_of_rows 1 1 [[-1]]) (free_idx_m
           (partition_step (mat_of_rows 1 1 [[-1]]) [1] [-1] [1]
              ((BoxQP_ctor 1 100 (1/8) (1/1024) 0)
                 \<lparr>x_m := project (nx_m (BoxQP_ctor 1 100 (1/8) (1/1024) 0)) [-1] [1] [0]\<rparr>)))))"
    by code_simp
  have dims: "rows (mat_of_rows 1 1 [[-1]]) = nx_m (BoxQP_ctor 1 100 (1/8) (1/1024) 0)
     \<and> cols (mat_of_rows 1 1 [[-1]]) = nx_m (BoxQP_ctor 1 100 (1/8) (1/1024) 0)
     \<and> length [1::real] = nx_m (BoxQP_ctor 1 100 (1/8) (1/1024) 0)
     \<and> length [-1::real] = nx_m (BoxQP_ctor 1 100 (1/8) (1/1024) 0)
     \<and> length [0::real] = nx_m (BoxQP_ctor 1 100 (1/8) (1/1024) 0)
     \<and> 0 < maxiter_m (BoxQP_ctor 1 100 (1/8) (1/1024) 0)"
    by (simp add: BoxQP_ctor_def mat_of_rows_def)
  from factorization_failure_throws [where L = exact_llt
      and s = "BoxQP_ctor 1 100 (1/8) (1/1024) 0" and H = "mat_of_rows 1 1 [[-1]]"
      and q = "[1]" and lb = "[-1]" and ub = "[1]" and xinit = "[0]"] bad dims
  show ?thesis by simp
qed

text \<open>
  C9. Dimension validation: when some argument does not have the dimension \<open>nx_\<close> of the
  solver, \<open>solve\<close> throws the invalid-argument exception of the first offending argument
  in the order \<open>H\<close>, \<open>q\<close>, \<open>lb\<close>, \<open>ub\<close>, \<open>xinit\<close>, and the solver object is left as it was:
  no iteration has run and no member was written.
\<close>

theorem solve_dimension_check:
  assumes "\<not> (rows H = nx_m s \<and> cols H = nx_m s \<and> length q = nx_m s \<and> length lb = nx_m s
              \<and> length ub = nx_m s \<and> length xinit = nx_m s)"
  shows "\<exists>a. find (\<lambda>c. \<not> snd c) (dimension_checks (nx_m s) H q lb ub xinit) = Some (a, False)
             \<and> solve L s H q lb ub xinit = (Inl (Invalid_argument a), s)"
  using assms by (auto simp add: solve_def dimension_checks_def)

theorem solve_dimension_check_witness:
  "\<not> (rows (mat_of_rows 2 2 [[1, 0], [0, 1]]) = nx_m (BoxQP_ctor 1 100 (1/10) (1/10^9) (1/10^9))
      \<and> cols (mat_of_rows 2 2 [[1, 0], [0, 1]]) = nx_m (BoxQP_ctor 1 100 (1/10) (1/10^9) (1/10^9))
      \<and> length [0::real] = nx_m (BoxQP_ctor 1 100 (1/10) (1/10^9) (1/10^9))
      \<and> length [0::real] = nx_m (BoxQP_ctor 1 100 (1/10) (1/10^9) (1/10^9))
      \<and> length [1::real] = nx_m (BoxQP_ctor 1 100 (1/10) (1/10^9) (1/10^9))
      \<and> length [0::real] = nx_m (BoxQP_ctor 1 100 (1/10) (1/10^9) (1/10^9)))
   \<and> solve exact_llt (BoxQP_ctor 1 100 (1/10) (1/10^9) (1/10^9))
         (mat_of_rows 2 2 [[1, 0], [0, 1]]) [0] [0] [1] [0]
       = (Inl (Invalid_argument ArgH), BoxQP_ctor 1 100 (1/10) (1/10^9) (1/10^9))"
  using solve_dimension_check [where s = "BoxQP_ctor 1 100 (1/10) (1/10^9) (1/10^9)"
      and H = "mat_of_rows 2 2 [[1, 0], [0, 1]]" and q = "[0]" and lb = "[0]" and ub = "[1]"
      and xinit = "[0]" and L = exact_llt]
  by (simp add: mat_of_rows_def BoxQP_ctor_def dimension_checks_def)



end
